theory Spec2Isabelle
  imports Main
begin

section \<open>The Client controller of client.cc\<close>

text \<open>
  A shallow embedding of \<^verbatim>\<open>src/src/client.cc\<close>. A \<^verbatim>\<open>Client\<close> object is a record; the
  objects that several clients can reach (the buffers, the registry of live clients, the
  filesystem, the process) live in a \<^verbatim>\<open>World\<close>, where a client is addressed by the
  number that stands for its \<^verbatim>\<open>this\<close> pointer and a buffer by the number that stands
  for its address. Every member function of \<^verbatim>\<open>Client\<close> takes the state and returns the
  state it leaves; a function that can be left by a C++ exception returns, beside the
  state reached when the exception was thrown, the exception.

  The collaborators of the controller (input handler, window, rendering backend, buffer,
  client registry, option store, hooks) are not part of client.cc. Each is modelled by
  the little the controller observes of it, and every call the controller makes to one
  of them is recorded, in order, in a log of the model.
\<close>

subsection \<open>Strings, faces and display lines\<close>

text \<open>\<^verbatim>\<open>'\<close>, as it occurs in the status messages.\<close>

definition quote :: string where
  "quote = [CHR 0x27]"

text \<open>\<^verbatim>\<open>format("'{}' ...", s)\<close>: the argument between single quotes.\<close>

definition quoted :: "string \<Rightarrow> string" where
  "quoted s = quote @ s @ quote"

text \<open>
  Modelled from the spec: the face registry is not in client.cc. \<^verbatim>\<open>get_face(name)\<close>
  yields the face registered under \<^verbatim>\<open>name\<close>; the model identifies it by that name.
  \<^verbatim>\<open>Face{}\<close> is the default face of an atom built from a string alone.
\<close>

datatype Face = DefaultFace | RegisteredFace string

definition get_face :: "string \<Rightarrow> Face" where
  "get_face facename = RegisteredFace facename"

text \<open>
  Modelled from the spec: a styled text atom, declared outside client.cc, is its text and
  its face; two atoms are equal when both agree.
\<close>

record DisplayAtom =
  content :: string
  face :: Face

text \<open>A \<^verbatim>\<open>DisplayLine\<close> is read through \<^verbatim>\<open>atoms()\<close> only: it is its atom sequence.\<close>

type_synonym DisplayLine = "DisplayAtom list"

type_synonym DisplayBuffer = "DisplayLine list"

text \<open>\<^verbatim>\<open>DisplayLine{ str, face }\<close> and \<^verbatim>\<open>DisplayAtom{ str }\<close>.\<close>

definition atom :: "string \<Rightarrow> Face \<Rightarrow> DisplayAtom" where
  "atom str fc = \<lparr>content = str, face = fc\<rparr>"

definition line_of :: "string \<Rightarrow> Face \<Rightarrow> DisplayLine" where
  "line_of str fc = [atom str fc]"

subsection \<open>Keys\<close>

text \<open>
  Modelled from the spec: the key type is declared outside client.cc. A key is a
  modifier and a code point; the named keys the controller tests for are code points of
  their own, and a resize event is a key whose modifier is \<^verbatim>\<open>Resize\<close>.
\<close>

datatype Modifiers = NoModifier | Control | Alt | ControlAlt | Resize

datatype Codepoint = Char char | Escape | FocusIn | FocusOut | Invalid | Named nat

record Key =
  modifiers :: Modifiers
  key :: Codepoint

definition ctrl :: "char \<Rightarrow> Key" where
  "ctrl c = \<lparr>modifiers = Control, key = Char c\<rparr>"

text \<open>The implicit conversions of a character and of a named key to a \<^verbatim>\<open>Key\<close>.\<close>

definition plain :: "char \<Rightarrow> Key" where
  "plain c = \<lparr>modifiers = NoModifier, key = Char c\<rparr>"

definition named :: "Codepoint \<Rightarrow> Key" where
  "named cp = \<lparr>modifiers = NoModifier, key = cp\<rparr>"

text \<open>
  Modelled from the spec: \<^verbatim>\<open>key_to_str\<close> is not in client.cc. The spec's scenario C fixes
  it on a plain character (\<^verbatim>\<open>'x'\<close> prints as \<^verbatim>\<open>x\<close>); the other keys print between angle
  brackets with a prefix for the modifier.
\<close>

fun codepoint_to_str :: "Codepoint \<Rightarrow> string" where
  "codepoint_to_str (Char c) = [c]"
| "codepoint_to_str Escape = ''esc''"
| "codepoint_to_str FocusIn = ''focus_in''"
| "codepoint_to_str FocusOut = ''focus_out''"
| "codepoint_to_str Invalid = ''invalid''"
| "codepoint_to_str (Named n) = ''named''"

fun modifiers_to_str :: "Modifiers \<Rightarrow> string" where
  "modifiers_to_str NoModifier = ''''"
| "modifiers_to_str Control = ''c-''"
| "modifiers_to_str Alt = ''a-''"
| "modifiers_to_str ControlAlt = ''c-a-''"
| "modifiers_to_str Resize = ''resize-''"

definition key_to_str :: "Key \<Rightarrow> string" where
  "key_to_str k =
     (case (modifiers k, key k) of
        (NoModifier, Char c) \<Rightarrow> [c]
      | (m, cp) \<Rightarrow> ''<'' @ modifiers_to_str m @ codepoint_to_str cp @ ''>'')"

text \<open>The three event modes of the spec; the enumeration is declared outside client.cc.\<close>

datatype EventMode = Normal | Pending | Urgent

subsection \<open>Exceptions\<close>

text \<open>
  The exceptions that cross client.cc: \<^verbatim>\<open>runtime_error\<close> with its message,
  \<^verbatim>\<open>client_removed\<close> with its \<^verbatim>\<open>graceful\<close> flag, and the failure of a \<^verbatim>\<open>kak_assert\<close>.
\<close>

datatype exn = runtime_error string | client_removed bool | assert_failed

subsection \<open>Rendering backend and input source\<close>

text \<open>
  Modelled from the spec: coordinates, overlay styles and the UI options are declared
  outside client.cc. A coordinate is a line and a column, \<^verbatim>\<open>CharCoord{}\<close> being \<^verbatim>\<open>(0, 0)\<close>. The
  menu styles are the inline one and a fixed one; the info styles are the three inline
  ones that \<^verbatim>\<open>is_inline\<close> names, \<^verbatim>\<open>Prompt\<close>, and one more that is not inline. The UI options
  are opaque to the controller.
\<close>

type_synonym CharCoord = "int \<times> int"

type_synonym ByteCoord = "int \<times> int"

datatype MenuStyle = MenuPrompt | MenuInline

datatype InfoStyle = Prompt | Inline | InlineAbove | InlineBelow | MenuDoc

type_synonym UiOptions = "(string \<times> string) list"

text \<open>The calls of the \<^verbatim>\<open>UserInterface\<close> that client.cc makes, with their arguments.\<close>

datatype ui_call =
    ui_draw DisplayBuffer Face
  | ui_draw_status DisplayLine DisplayLine Face
  | ui_refresh
  | ui_menu_show "DisplayLine list" CharCoord Face Face MenuStyle
  | ui_menu_select int
  | ui_menu_hide
  | ui_info_show string string CharCoord Face InfoStyle
  | ui_info_hide
  | ui_set_ui_options UiOptions

text \<open>
  Modelled from the spec: the backend is an interface whose implementations are not in
  client.cc. The model keeps the keys the input source has ready, oldest first, the
  calls made so far, oldest first, and the dimensions it reports.
\<close>

record UserInterface =
  input :: "Key list"
  calls :: "ui_call list"
  dimensions :: CharCoord

definition is_key_available :: "UserInterface \<Rightarrow> bool" where
  "is_key_available u = (input u \<noteq> [])"

text \<open>
  Modelled from the spec: \<^verbatim>\<open>get_key\<close> yields the next input event, the oldest ready key,
  and removes it. The spec does not say what a fetch answers when no key is ready; the
  model has the backend answer with the key \<^verbatim>\<open>Invalid\<close> and keep its state.
\<close>

definition get_key :: "UserInterface \<Rightarrow> Key \<times> UserInterface" where
  "get_key u =
     (case input u of
        [] \<Rightarrow> (named Invalid, u)
      | k # ks \<Rightarrow> (k, u\<lparr>input := ks\<rparr>))"

definition ui_do :: "ui_call \<Rightarrow> UserInterface \<Rightarrow> UserInterface" where
  "ui_do call u = u\<lparr>calls := calls u @ [call]\<rparr>"

subsection \<open>Window, options, overlays\<close>

text \<open>
  Modelled from the spec: the reload policy, declared outside client.cc. The source
  names \<^verbatim>\<open>Autoreload::No\<close> and \<^verbatim>\<open>Autoreload::Ask\<close>; \<^verbatim>\<open>Yes\<close> stands for the third value, the
  spec's \<open>always\<close>.
\<close>

datatype Autoreload = Yes | No | Ask

record Options =
  ui_options :: UiOptions
  modelinefmt :: string
  autoreload :: Autoreload

text \<open>
  Modelled from the spec: the window is not in client.cc. The model keeps the buffer it
  shows, its position, its dimensions, its options and whether this client watches them,
  and what the compositor will answer: whether it \<^verbatim>\<open>needs_redraw\<close>, and the display buffer
  and the position that \<^verbatim>\<open>update_display_buffer\<close> produces.
\<close>

record Window =
  buffer :: nat
  position :: CharCoord
  win_dimensions :: CharCoord
  options :: Options
  watched :: bool
  dirty :: bool
  scrolled_position :: CharCoord
  display_buffer :: DisplayBuffer

definition needs_redraw :: "Window \<Rightarrow> bool" where
  "needs_redraw win = dirty win"

definition update_display_buffer :: "Window \<Rightarrow> DisplayBuffer \<times> Window" where
  "update_display_buffer win =
     (display_buffer win, win\<lparr>position := scrolled_position win, dirty := False\<rparr>)"

text \<open>
  Modelled from the spec: the window's screen-position mapping of a logical anchor. The
  model takes the anchor relative to the window's position.
\<close>

definition display_position :: "Window \<Rightarrow> ByteCoord \<Rightarrow> CharCoord" where
  "display_position win coord =
     (fst coord - fst (position win), snd coord - snd (position win))"

text \<open>
  Modelled from the spec: the menu state and the info state of a client, whose
  declarations are outside client.cc; the members are those client.cc reads and writes.
\<close>

record Menu =
  items :: "DisplayLine list"
  menu_anchor :: ByteCoord
  menu_style :: MenuStyle
  selected :: int

record Info =
  title :: string
  info_content :: string
  info_anchor :: ByteCoord
  info_style :: InfoStyle

text \<open>\<^verbatim>\<open>Menu{}\<close> and \<^verbatim>\<open>Info{}\<close>: every member value-initialised.\<close>

definition empty_menu :: Menu where
  "empty_menu = \<lparr>items = [], menu_anchor = (0, 0), menu_style = MenuPrompt, selected = 0\<rparr>"

definition empty_info :: Info where
  "empty_info = \<lparr>title = [], info_content = [], info_anchor = (0, 0), info_style = Prompt\<rparr>"

subsection \<open>Buffers and the filesystem\<close>

text \<open>
  Modelled from the spec: a filesystem timestamp. \<^verbatim>\<open>InvalidTime\<close> is the value that
  \<^verbatim>\<open>get_fs_timestamp\<close> answers when the timestamp is unavailable.
\<close>

datatype timespec = InvalidTime | Time int int

datatype BufferFlag = File | New | Fifo | NoUndo

text \<open>
  Modelled from the spec: the buffer is not in client.cc. The model keeps what the
  controller reads (name, display name, flags, recorded filesystem timestamp, modified
  state) and counts the reloads made of it.
\<close>

record Buffer =
  name :: string
  display_name :: string
  flags :: "BufferFlag set"
  fs_timestamp :: timespec
  is_modified :: bool
  reloads :: nat

subsection \<open>Input handler\<close>

text \<open>The callable that \<^verbatim>\<open>on_next_key\<close> is given in client.cc: it calls \<^verbatim>\<open>on_buffer_reload_key\<close>.\<close>

datatype next_key_callback = call_on_buffer_reload_key

type_synonym SelectionList = "nat list"

text \<open>
  Modelled from the spec: the input handler, the context it owns and the editing engine
  behind it are not in client.cc. The model keeps the context's name, selections and
  hook switch and the hooks run in it; the macro recording state and the mode indicator;
  the one slot for a one-shot handler of the next key; the keys given to \<^verbatim>\<open>handle_key\<close>
  and, of these, the keys that reached the engine's ordinary routing; and which
  exception, if any, the engine raises on a key.
\<close>

record InputHandler =
  context_name :: string
  user_hooks_disabled :: bool
  selections :: SelectionList
  hooks_run :: "(string \<times> string) list"
  is_recording :: bool
  recording_reg :: char
  mode_line :: DisplayLine
  next_key :: "next_key_callback option"
  handled_keys :: "Key list"
  engine_keys :: "Key list"
  engine_raises :: "Key \<Rightarrow> exn option"

definition run_hook :: "string \<Rightarrow> string \<Rightarrow> InputHandler \<Rightarrow> InputHandler" where
  "run_hook hook_name param ih = ih\<lparr>hooks_run := hooks_run ih @ [(hook_name, param)]\<rparr>"

definition on_next_key :: "next_key_callback \<Rightarrow> InputHandler \<Rightarrow> InputHandler" where
  "on_next_key callback ih = ih\<lparr>next_key := Some callback\<rparr>"

definition reset_normal_mode :: "InputHandler \<Rightarrow> InputHandler" where
  "reset_normal_mode ih = ih\<lparr>next_key := None\<rparr>"

subsection \<open>Client and world\<close>

text \<open>The members of \<^verbatim>\<open>Client\<close> that client.cc uses (its environment variables apart).\<close>

record Client =
  m_ui :: UserInterface
  m_window :: Window
  m_input_handler :: InputHandler
  m_pending_keys :: "Key list"
  m_status_line :: DisplayLine
  m_pending_status_line :: DisplayLine
  m_mode_line :: DisplayLine
  m_menu :: Menu
  m_info :: Info
  m_buffer_reload_dialog_opened :: bool
  m_last_buffer :: "nat option"

text \<open>
  What clients share. \<^verbatim>\<open>client\<close> is the store of client objects and \<^verbatim>\<open>client_manager\<close> the
  registry's list of live clients, in its iteration order, with the clients it removed;
  \<^verbatim>\<open>free_windows\<close> is its pool of windows; \<^verbatim>\<open>buffers\<close> is the store of buffer objects.
  \<^verbatim>\<open>fs_time\<close> is what \<^verbatim>\<open>get_fs_timestamp\<close> reads for a file name and \<^verbatim>\<open>reload_error\<close> the
  message of the error that reading a file back raises, if it does. \<^verbatim>\<open>expand\<close> and
  \<^verbatim>\<open>parse_display_line\<close> are parameters: they answer with their result or with the message
  of the \<^verbatim>\<open>runtime_error\<close> they raise, \<^verbatim>\<open>expand\<close> in the context of one client.
  \<^verbatim>\<open>server_session\<close> is \<^verbatim>\<open>Server::instance().session()\<close>, \<^verbatim>\<open>debug_buffer\<close> what was written to
  the debug buffer, \<^verbatim>\<open>sigint_broadcasts\<close> the number of \<^verbatim>\<open>SIGINT\<close> sent to the process group.
\<close>

record World =
  client :: "nat \<Rightarrow> Client"
  client_manager :: "nat list"
  removed_clients :: "(nat \<times> bool) list"
  free_windows :: "(Window \<times> SelectionList) list"
  buffers :: "nat \<Rightarrow> Buffer"
  fs_time :: "string \<Rightarrow> timespec"
  reload_error :: "string \<Rightarrow> string option"
  expand :: "nat \<Rightarrow> string \<Rightarrow> string + string"
  parse_display_line :: "string \<Rightarrow> string + DisplayLine"
  server_session :: string
  debug_buffer :: "string list"
  sigint_broadcasts :: nat

definition set_client :: "nat \<Rightarrow> Client \<Rightarrow> World \<Rightarrow> World" where
  "set_client this c w = w\<lparr>client := (client w)(this := c)\<rparr>"

definition set_buffer :: "nat \<Rightarrow> Buffer \<Rightarrow> World \<Rightarrow> World" where
  "set_buffer b buf w = w\<lparr>buffers := (buffers w)(b := buf)\<rparr>"

text \<open>\<^verbatim>\<open>context().buffer()\<close>: the buffer of the client's window.\<close>

definition context_buffer :: "Client \<Rightarrow> nat" where
  "context_buffer c = buffer (m_window c)"

definition get_fs_timestamp :: "World \<Rightarrow> string \<Rightarrow> timespec" where
  "get_fs_timestamp w filename = fs_time w filename"

definition write_to_debug_buffer :: "string \<Rightarrow> World \<Rightarrow> World" where
  "write_to_debug_buffer str w = w\<lparr>debug_buffer := debug_buffer w @ [str]\<rparr>"

text \<open>\<^verbatim>\<open>killpg(getpgrp(), SIGINT)\<close>.\<close>

definition killpg_sigint :: "World \<Rightarrow> World" where
  "killpg_sigint w = w\<lparr>sigint_broadcasts := Suc (sigint_broadcasts w)\<rparr>"

definition call_ui :: "ui_call \<Rightarrow> Client \<Rightarrow> Client" where
  "call_ui call c = c\<lparr>m_ui := ui_do call (m_ui c)\<rparr>"

section \<open>The member functions\<close>

subsection \<open>get\_next\_key, print\_status\<close>

definition get_next_key :: "EventMode \<Rightarrow> Client \<Rightarrow> Key option \<times> Client" where
  "get_next_key mode c =
     (case m_pending_keys c of
        k # rest \<Rightarrow> (Some k, c\<lparr>m_pending_keys := rest\<rparr>)
      | [] \<Rightarrow>
          if mode \<noteq> Pending \<and> is_key_available (m_ui c)
          then (let (k, u) = get_key (m_ui c) in (Some k, c\<lparr>m_ui := u\<rparr>))
          else (None, c))"

definition print_status :: "DisplayLine \<Rightarrow> Client \<Rightarrow> Client" where
  "print_status status_line c = c\<lparr>m_pending_status_line := status_line\<rparr>"

subsection \<open>generate\_mode\_line\<close>

text \<open>\<^verbatim>\<open>parse_display_line(expand(modelinefmt, context()))\<close>: either call may raise.\<close>

definition expand_and_parse :: "World \<Rightarrow> nat \<Rightarrow> string \<Rightarrow> string + DisplayLine" where
  "expand_and_parse w this fmt =
     (case expand w this fmt of
        Inl what \<Rightarrow> Inl what
      | Inr str \<Rightarrow> parse_display_line w str)"

text \<open>The \<^verbatim>\<open>try\<close> block of generate\_mode\_line with its \<^verbatim>\<open>catch\<close>.\<close>

definition modelinefmt_line :: "nat \<Rightarrow> World \<Rightarrow> DisplayLine \<times> World" where
  "modelinefmt_line this w =
     (case expand_and_parse w this (modelinefmt (options (m_window (client w this)))) of
        Inr line \<Rightarrow> (line, w)
      | Inl what \<Rightarrow>
          ([atom ''modelinefmt error, see *debug* buffer'' (get_face ''Error'')],
           write_to_debug_buffer (''Error while parsing modelinefmt: '' @ what) w))"

text \<open>The five conditional \<^verbatim>\<open>push_back\<close>s, in the order of the source.\<close>

definition indicators :: "Buffer \<Rightarrow> InputHandler \<Rightarrow> DisplayLine" where
  "indicators buf ih =
     (let info_face = get_face ''Information'' in
        (if is_modified buf then [atom ''[+]'' info_face] else [])
      @ (if is_recording ih
         then [atom (''[recording ('' @ [recording_reg ih] @ '')]'') info_face] else [])
      @ (if New \<in> flags buf then [atom ''[new file]'' info_face] else [])
      @ (if user_hooks_disabled ih then [atom ''[no-hooks]'' info_face] else [])
      @ (if Fifo \<in> flags buf then [atom ''[fifo]'' info_face] else []))"

definition generate_mode_line :: "nat \<Rightarrow> World \<Rightarrow> DisplayLine \<times> World" where
  "generate_mode_line this w =
     (let (modeline, w1) = modelinefmt_line this w;
          c = client w this;
          ih = m_input_handler c;
          buf = buffers w (context_buffer c)
      in (modeline
            @ indicators buf ih
            @ [atom '' '' DefaultFace]
            @ mode_line ih
            @ [atom ('' - '' @ context_name ih @ ''@['' @ server_session w @ '']'') DefaultFace],
          w1))"

subsection \<open>Overlays: menu\_show, menu\_select, menu\_hide, info\_show, info\_hide\<close>

definition is_inline :: "InfoStyle \<Rightarrow> bool" where
  "is_inline st = (st = Inline \<or> st = InlineAbove \<or> st = InlineBelow)"

definition menu_show :: "DisplayLine list \<Rightarrow> ByteCoord \<Rightarrow> MenuStyle \<Rightarrow> Client \<Rightarrow> Client" where
  "menu_show choices anc st c =
     (let c1 = c\<lparr>m_menu := \<lparr>items = choices, menu_anchor = anc, menu_style = st, selected = - 1\<rparr>\<rparr>;
          ui_anchor = (if st = MenuInline then display_position (m_window c1) anc else (0, 0))
      in call_ui (ui_menu_show (items (m_menu c1)) ui_anchor
                    (get_face ''MenuForeground'') (get_face ''MenuBackground'') st) c1)"

definition menu_select :: "int \<Rightarrow> Client \<Rightarrow> Client" where
  "menu_select sel c = call_ui (ui_menu_select sel) (c\<lparr>m_menu := (m_menu c)\<lparr>selected := sel\<rparr>\<rparr>)"

definition menu_hide :: "Client \<Rightarrow> Client" where
  "menu_hide c = call_ui ui_menu_hide (c\<lparr>m_menu := empty_menu\<rparr>)"

definition info_show :: "string \<Rightarrow> string \<Rightarrow> ByteCoord \<Rightarrow> InfoStyle \<Rightarrow> Client \<Rightarrow> Client" where
  "info_show ttl cont anc st c =
     (let c1 = c\<lparr>m_info := \<lparr>title = ttl, info_content = cont, info_anchor = anc, info_style = st\<rparr>\<rparr>;
          ui_anchor = (if is_inline st then display_position (m_window c1) anc else (0, 0))
      in call_ui (ui_info_show (title (m_info c1)) (info_content (m_info c1)) ui_anchor
                    (get_face ''Information'') st) c1)"

definition info_hide :: "Client \<Rightarrow> Client" where
  "info_hide c = call_ui ui_info_hide (c\<lparr>m_info := empty_info\<rparr>)"

subsection \<open>redraw\_ifn, force\_redraw\<close>

text \<open>The body of \<^verbatim>\<open>if (window_pos != window.position())\<close>: the two overlays, menu first.\<close>

definition reanchor_menu :: "Client \<Rightarrow> Client" where
  "reanchor_menu c =
     (if items (m_menu c) \<noteq> [] \<and> menu_style (m_menu c) = MenuInline
      then call_ui (ui_menu_select (selected (m_menu c)))
             (call_ui (ui_menu_show (items (m_menu c))
                         (display_position (m_window c) (menu_anchor (m_menu c)))
                         (get_face ''MenuForeground'') (get_face ''MenuBackground'')
                         (menu_style (m_menu c))) c)
      else c)"

definition reanchor_info :: "Client \<Rightarrow> Client" where
  "reanchor_info c =
     (if info_content (m_info c) \<noteq> [] \<and> is_inline (info_style (m_info c))
      then call_ui (ui_info_show (title (m_info c)) (info_content (m_info c))
                      (display_position (m_window c) (info_anchor (m_info c)))
                      (get_face ''Information'') (info_style (m_info c))) c
      else c)"

text \<open>The body of \<^verbatim>\<open>if (needs_redraw)\<close>.\<close>

definition redraw_window :: "Client \<Rightarrow> Client" where
  "redraw_window c =
     (let window_pos = position (m_window c);
          (db, win) = update_display_buffer (m_window c);
          c1 = call_ui (ui_draw db (get_face ''Default'')) (c\<lparr>m_window := win\<rparr>)
      in if window_pos \<noteq> position (m_window c1)
         then reanchor_info (reanchor_menu c1)
         else c1)"

text \<open>The status strip: the second \<^verbatim>\<open>if\<close> of redraw\_ifn, given the mode line just built.\<close>

definition redraw_status :: "bool \<Rightarrow> DisplayLine \<Rightarrow> Client \<Rightarrow> Client" where
  "redraw_status needs modeline c =
     (if needs \<or> m_status_line c \<noteq> m_pending_status_line c \<or> modeline \<noteq> m_mode_line c
      then (let c1 = c\<lparr>m_mode_line := modeline, m_status_line := m_pending_status_line c\<rparr>
            in call_ui (ui_draw_status (m_status_line c1) (m_mode_line c1)
                          (get_face ''StatusLine'')) c1)
      else c)"

definition redraw_ifn :: "nat \<Rightarrow> World \<Rightarrow> World" where
  "redraw_ifn this w =
     (let c = client w this;
          needs = needs_redraw (m_window c);
          w1 = (if needs then set_client this (redraw_window c) w else w);
          (modeline, w2) = generate_mode_line this w1;
          c2 = redraw_status needs modeline (client w2 this)
      in set_client this (call_ui ui_refresh c2) w2)"

text \<open>A client always has a window, so the test \<^verbatim>\<open>if (m_window)\<close> succeeds.\<close>

definition force_redraw :: "Client \<Rightarrow> Client" where
  "force_redraw c = c\<lparr>m_window := (m_window c)\<lparr>dirty := True\<rparr>\<rparr>"

subsection \<open>The buffer-reload dialog\<close>

text \<open>
  Modelled from the spec: the reload operation (\<^verbatim>\<open>reload_file_buffer\<close>) is not in
  client.cc. It is counted on the buffer. It reads the file back, after which the recorded
  timestamp is the file's; when the file cannot be read it raises a \<^verbatim>\<open>runtime_error\<close>
  (the spec: failure containment applies to the reload operation) and leaves the buffer
  as it was.
\<close>

definition reload_file_buffer :: "nat \<Rightarrow> World \<Rightarrow> exn option \<times> World" where
  "reload_file_buffer b w =
     (let buf = (buffers w b)\<lparr>reloads := Suc (reloads (buffers w b))\<rparr> in
      case reload_error w (name buf) of
        Some what \<Rightarrow> (Some (runtime_error what), set_buffer b buf w)
      | None \<Rightarrow> (None, set_buffer b (buf\<lparr>fs_timestamp := fs_time w (name buf)\<rparr>) w))"

definition reload_buffer :: "nat \<Rightarrow> World \<Rightarrow> exn option \<times> World" where
  "reload_buffer this w =
     (let b = context_buffer (client w this) in
      case reload_file_buffer b w of
        (Some e, w1) \<Rightarrow> (Some e, w1)
      | (None, w1) \<Rightarrow>
          (None, set_client this
                   (print_status
                      (line_of (quoted (display_name (buffers w1 b)) @ '' reloaded'')
                         (get_face ''Information''))
                      (client w1 this)) w1))"

definition close_buffer_reload_dialog :: "Client \<Rightarrow> exn option \<times> Client" where
  "close_buffer_reload_dialog c =
     (if \<not> m_buffer_reload_dialog_opened c then (Some assert_failed, c)
      else (let c1 = call_ui ui_info_hide (c\<lparr>m_buffer_reload_dialog_opened := False\<rparr>)
            in (None, c1\<lparr>m_input_handler := reset_normal_mode (m_input_handler c1)\<rparr>)))"

text \<open>The \<^verbatim>\<open>for\<close> loop over the registry that ends on\_buffer\_reload\_key.\<close>

fun close_reload_dialogs :: "nat \<Rightarrow> nat list \<Rightarrow> World \<Rightarrow> exn option \<times> World" where
  "close_reload_dialogs b [] w = (None, w)"
| "close_reload_dialogs b (j # js) w =
     (if context_buffer (client w j) = b \<and> m_buffer_reload_dialog_opened (client w j)
      then (case close_buffer_reload_dialog (client w j) of
              (Some e, c1) \<Rightarrow> (Some e, set_client j c1 w)
            | (None, c1) \<Rightarrow> close_reload_dialogs b js (set_client j c1 w))
      else close_reload_dialogs b js w)"

definition on_buffer_reload_key :: "Key \<Rightarrow> nat \<Rightarrow> World \<Rightarrow> exn option \<times> World" where
  "on_buffer_reload_key k this w =
     (let b = context_buffer (client w this) in
      if k = plain CHR ''y'' \<or> k = ctrl CHR ''m''
      then (case reload_buffer this w of
              (Some e, w1) \<Rightarrow> (Some e, w1)
            | (None, w1) \<Rightarrow> close_reload_dialogs b (client_manager w1) w1)
      else if k = plain CHR ''n'' \<or> k = named Escape
      then (let buf = buffers w b;
                w1 = set_buffer b (buf\<lparr>fs_timestamp := get_fs_timestamp w (name buf)\<rparr>) w;
                w2 = set_client this
                       (print_status
                          (line_of (quoted (display_name (buffers w1 b)) @ '' kept'')
                             (get_face ''Information''))
                          (client w1 this)) w1
            in close_reload_dialogs b (client_manager w2) w2)
      else (let c = print_status
                      (line_of (quoted (key_to_str k) @ '' is not a valid choice'')
                         (get_face ''Error''))
                      (client w this)
            in (None, set_client this
                        (c\<lparr>m_input_handler :=
                             on_next_key call_on_buffer_reload_key (m_input_handler c)\<rparr>) w)))"

definition check_if_buffer_needs_reloading :: "nat \<Rightarrow> World \<Rightarrow> exn option \<times> World" where
  "check_if_buffer_needs_reloading this w =
     (let c = client w this in
      if m_buffer_reload_dialog_opened c then (None, w)
      else (let buf = buffers w (context_buffer c);
                reload = autoreload (options (m_window c))
            in if File \<notin> flags buf \<or> reload = No then (None, w)
               else (let filename = name buf;
                         ts = get_fs_timestamp w filename
                     in if ts = InvalidTime \<or> ts = fs_timestamp buf then (None, w)
                        else if reload = Ask
                        then (let bufname = display_name buf;
                                  c1 = info_show (''reload '' @ quoted bufname @ '' ?'')
                                         (quoted bufname @ '' was modified externally''
                                            @ [CHR 0x0A]
                                            @ ''press <ret> or y to reload, <esc> or n to keep'')
                                         (0, 0) Prompt c;
                                  c2 = c1\<lparr>m_buffer_reload_dialog_opened := True\<rparr>
                              in (None, set_client this
                                          (c2\<lparr>m_input_handler :=
                                                on_next_key call_on_buffer_reload_key
                                                  (m_input_handler c2)\<rparr>) w))
                        else reload_buffer this w)))"

text \<open>
  Modelled from the spec: \<^verbatim>\<open>InputHandler::handle_key\<close> is not in client.cc. A one-shot
  handler installed by \<^verbatim>\<open>on_next_key\<close> takes the next key in place of the engine's ordinary
  routing and is gone once it has been given that key; without one the key reaches the
  engine, which may raise.
\<close>

definition handle_key :: "Key \<Rightarrow> nat \<Rightarrow> World \<Rightarrow> exn option \<times> World" where
  "handle_key k this w =
     (let c = client w this;
          ih = (m_input_handler c)\<lparr>handled_keys := handled_keys (m_input_handler c) @ [k]\<rparr>
      in case next_key ih of
           Some call_on_buffer_reload_key \<Rightarrow>
             on_buffer_reload_key k this
               (set_client this (c\<lparr>m_input_handler := ih\<lparr>next_key := None\<rparr>\<rparr>) w)
         | None \<Rightarrow>
             (engine_raises ih k,
              set_client this
                (c\<lparr>m_input_handler := ih\<lparr>engine_keys := engine_keys ih @ [k]\<rparr>\<rparr>) w))"

subsection \<open>change\_buffer\<close>

text \<open>
  Modelled from the spec: the registry's pool of free windows is not in client.cc.
  \<^verbatim>\<open>add_free_window\<close> puts a window and its selections in the pool; \<^verbatim>\<open>get_free_window\<close>
  takes the most recently pooled window of the buffer out of it, or makes a new window
  of the buffer.
\<close>

definition new_window :: "nat \<Rightarrow> Window" where
  "new_window b =
     \<lparr>buffer = b, position = (0, 0), win_dimensions = (0, 0),
      options = \<lparr>ui_options = [], modelinefmt = [], autoreload = Ask\<rparr>,
      watched = False, dirty = True, scrolled_position = (0, 0), display_buffer = []\<rparr>"

definition add_free_window :: "Window \<Rightarrow> SelectionList \<Rightarrow> World \<Rightarrow> World" where
  "add_free_window win sels w = w\<lparr>free_windows := (win, sels) # free_windows w\<rparr>"

fun take_window :: "nat \<Rightarrow> (Window \<times> SelectionList) list
    \<Rightarrow> ((Window \<times> SelectionList) \<times> (Window \<times> SelectionList) list) option" where
  "take_window b [] = None"
| "take_window b (ws # rest) =
     (if buffer (fst ws) = b then Some (ws, rest)
      else (case take_window b rest of
              None \<Rightarrow> None
            | Some (found, rest1) \<Rightarrow> Some (found, ws # rest1)))"

definition get_free_window :: "nat \<Rightarrow> World \<Rightarrow> (Window \<times> SelectionList) \<times> World" where
  "get_free_window b w =
     (case take_window b (free_windows w) of
        Some (ws, rest) \<Rightarrow> (ws, w\<lparr>free_windows := rest\<rparr>)
      | None \<Rightarrow> ((new_window b, [0]), w))"

text \<open>What change\_buffer does once the dialog is closed: from \<^verbatim>\<open>m_last_buffer = ...\<close> on.\<close>

definition swap_window :: "nat \<Rightarrow> nat \<Rightarrow> Client \<Rightarrow> World \<Rightarrow> World" where
  "swap_window b this c w =
     (let c1 = c\<lparr>m_last_buffer := Some (buffer (m_window c))\<rparr>;
          w1 = add_free_window ((m_window c1)\<lparr>watched := False\<rparr>)
                 (selections (m_input_handler c1)) w;
          ((win, sels), w2) = get_free_window b w1;
          c2 = call_ui (ui_set_ui_options (ui_options (options win)))
                 (c1\<lparr>m_window := win\<lparr>watched := True\<rparr>\<rparr>);
          c3 = c2\<lparr>m_input_handler := (m_input_handler c2)\<lparr>selections := sels\<rparr>\<rparr>;
          c4 = c3\<lparr>m_window := (m_window c3)\<lparr>win_dimensions := dimensions (m_ui c3)\<rparr>\<rparr>;
          c5 = c4\<lparr>m_input_handler :=
                    run_hook ''WinDisplay'' (name (buffers w2 b)) (m_input_handler c4)\<rparr>
      in set_client this c5 w2)"

definition change_buffer :: "nat \<Rightarrow> nat \<Rightarrow> World \<Rightarrow> exn option \<times> World" where
  "change_buffer b this w =
     (case (if m_buffer_reload_dialog_opened (client w this)
            then close_buffer_reload_dialog (client w this)
            else (None, client w this)) of
        (Some e, c) \<Rightarrow> (Some e, set_client this c w)
      | (None, c) \<Rightarrow> (None, swap_window b this c w))"

subsection \<open>handle\_available\_input\<close>

text \<open>The body of the \<^verbatim>\<open>while\<close> loop: where one key goes.\<close>

definition dispatch_key :: "Key \<Rightarrow> nat \<Rightarrow> World \<Rightarrow> exn option \<times> World" where
  "dispatch_key k this w =
     (let c = client w this in
      if k = ctrl CHR ''c'' then (None, killpg_sigint w)
      else if k = named FocusIn
      then (None, set_client this
                    (c\<lparr>m_input_handler :=
                         run_hook ''FocusIn'' (context_name (m_input_handler c))
                           (m_input_handler c)\<rparr>) w)
      else if k = named FocusOut
      then (None, set_client this
                    (c\<lparr>m_input_handler :=
                         run_hook ''FocusOut'' (context_name (m_input_handler c))
                           (m_input_handler c)\<rparr>) w)
      else if modifiers k = Resize then (None, set_client this (force_redraw c) w)
      else handle_key k this w)"

text \<open>The keys that \<^verbatim>\<open>get_next_key\<close> has still to yield: the queue, then the input source.\<close>

definition waiting_keys :: "Client \<Rightarrow> Key list" where
  "waiting_keys c = m_pending_keys c @ input (m_ui c)"

text \<open>
  The \<^verbatim>\<open>while\<close> loop of handle\_available\_input. It ends because every turn takes one key
  from the queue or from the input source and no turn adds one.
\<close>

function drain_keys :: "EventMode \<Rightarrow> nat \<Rightarrow> World \<Rightarrow> exn option \<times> World" where
  "drain_keys mode this w =
     (case get_next_key mode (client w this) of
        (None, c) \<Rightarrow> (None, set_client this c w)
      | (Some k, c) \<Rightarrow>
          (case dispatch_key k this (set_client this c w) of
             (Some e, w1) \<Rightarrow> (Some e, w1)
           | (None, w1) \<Rightarrow> drain_keys mode this w1))"
  by pat_completeness auto

termination drain_keys
proof (relation "measure (\<lambda>(mode, this, w). length (waiting_keys (client w this)))")
  show "wf (measure (\<lambda>(mode, this, w). length (waiting_keys (client w this))))"
    by simp
next
  fix mode :: EventMode and this :: nat and w :: World and x c k y xo w1
  assume g: "(x, c) = get_next_key mode (client w this)" and x: "x = Some k"
    and d: "(xo, w1) = dispatch_key k this (set_client this c w)" and "xo = None"
  have kept: "waiting_keys (a\<lparr>m_pending_status_line := l\<rparr>) = waiting_keys a"
      "waiting_keys (a\<lparr>m_input_handler := h\<rparr>) = waiting_keys a"
      "waiting_keys (a\<lparr>m_window := wi\<rparr>) = waiting_keys a"
      "waiting_keys (a\<lparr>m_buffer_reload_dialog_opened := op\<rparr>) = waiting_keys a"
      "waiting_keys (call_ui cl a) = waiting_keys a" for a l h wi op cl
    by (simp_all add: waiting_keys_def call_ui_def ui_do_def)
  have close: "waiting_keys (client (snd (close_reload_dialogs b js v)) j) = waiting_keys (client v j)"
    for b js v j
    by (induction js arbitrary: v)
      (simp_all add: close_buffer_reload_dialog_def set_client_def kept Let_def)
  have reload: "waiting_keys (client (snd (reload_buffer i v)) j) = waiting_keys (client v j)"
    for i v j
    by (simp add: reload_buffer_def reload_file_buffer_def set_buffer_def set_client_def
          print_status_def kept Let_def split: option.split)
  have handler: "waiting_keys (client (snd (on_buffer_reload_key k i v)) j) = waiting_keys (client v j)"
    for i v j
  proof (cases "reload_buffer i v")
    case (Pair xr vr)
    then show ?thesis
      using reload [of i v j]
      by (cases xr)
        (simp_all add: on_buffer_reload_key_def Let_def close set_client_def set_buffer_def
          print_status_def kept)
  qed
  have "waiting_keys (client (snd (dispatch_key k this v)) this) = waiting_keys (client v this)"
    for v
    by (simp add: dispatch_key_def handle_key_def Let_def handler set_client_def
          killpg_sigint_def force_redraw_def kept
          split: option.split next_key_callback.split)
  from this [of "set_client this c w"] d [symmetric]
  have "waiting_keys (client w1 this) = waiting_keys c"
    by (simp add: set_client_def)
  moreover have "waiting_keys (client w this) = k # waiting_keys c"
    using g [symmetric] x
    by (auto simp add: get_next_key_def waiting_keys_def is_key_available_def get_key_def
          split: list.splits if_splits)
  ultimately show "((mode, this, w1), (mode, this, w)) \<in>
      measure (\<lambda>(mode, this, w). length (waiting_keys (client w this)))"
    by simp
qed

declare drain_keys.simps [simp del]

definition remove_client :: "nat \<Rightarrow> bool \<Rightarrow> World \<Rightarrow> World" where
  "remove_client this graceful w =
     w\<lparr>client_manager := removeAll this (client_manager w),
       removed_clients := removed_clients w @ [(this, graceful)]\<rparr>"

text \<open>The inner \<^verbatim>\<open>catch (Kakoune::runtime_error&)\<close> and the outer \<^verbatim>\<open>catch (client_removed&)\<close>.\<close>

definition catch_runtime_error :: "nat \<Rightarrow> exn option \<times> World \<Rightarrow> exn option \<times> World" where
  "catch_runtime_error this r =
     (case r of
        (Some (runtime_error what), w) \<Rightarrow>
          (let c = print_status (line_of what (get_face ''Error'')) (client w this)
           in (None, set_client this
                       (c\<lparr>m_input_handler :=
                            run_hook ''RuntimeError'' what (m_input_handler c)\<rparr>) w))
      | _ \<Rightarrow> r)"

definition catch_client_removed :: "nat \<Rightarrow> exn option \<times> World \<Rightarrow> exn option \<times> World" where
  "catch_client_removed this r =
     (case r of
        (Some (client_removed graceful), w) \<Rightarrow> (None, remove_client this graceful w)
      | _ \<Rightarrow> r)"

definition handle_available_input :: "EventMode \<Rightarrow> nat \<Rightarrow> World \<Rightarrow> exn option \<times> World" where
  "handle_available_input mode this w =
     (if mode = Urgent
      then (let c = client w this;
                (k, u) = get_key (m_ui c);
                c1 = c\<lparr>m_ui := u\<rparr>
            in if k = ctrl CHR ''c'' then (None, killpg_sigint (set_client this c1 w))
               else (None, set_client this (c1\<lparr>m_pending_keys := m_pending_keys c1 @ [k]\<rparr>) w))
      else catch_client_removed this (catch_runtime_error this (drain_keys mode this w)))"

section \<open>Vocabulary of the properties\<close>

text \<open>
  The client that \<^verbatim>\<open>close_buffer_reload_dialog\<close> leaves when its assertion holds, and the
  store of clients that the loop over the registry leaves: \<^verbatim>\<open>closed_where b js cl\<close> is
  \<^verbatim>\<open>cl\<close> with the dialog closed on the clients of \<^verbatim>\<open>js\<close> that show buffer \<^verbatim>\<open>b\<close> with the
  dialog open.
\<close>

definition dialog_closed :: "Client \<Rightarrow> Client" where
  "dialog_closed c =
     (call_ui ui_info_hide (c\<lparr>m_buffer_reload_dialog_opened := False\<rparr>))
       \<lparr>m_input_handler := reset_normal_mode (m_input_handler c)\<rparr>"

definition closed_where :: "nat \<Rightarrow> nat list \<Rightarrow> (nat \<Rightarrow> Client) \<Rightarrow> nat \<Rightarrow> Client" where
  "closed_where b js cl j =
     (if j \<in> set js \<and> context_buffer (cl j) = b \<and> m_buffer_reload_dialog_opened (cl j)
      then dialog_closed (cl j) else cl j)"

definition same_keys :: "Client \<Rightarrow> Client \<Rightarrow> bool" where
  "same_keys c c1 = (m_pending_keys c1 = m_pending_keys c \<and> input (m_ui c1) = input (m_ui c))"

text \<open>Recognisers of backend calls, to count them in the log.\<close>

fun is_draw_status :: "ui_call \<Rightarrow> bool" where
  "is_draw_status (ui_draw_status sl ml fc) = True"
| "is_draw_status call = False"

fun is_refresh :: "ui_call \<Rightarrow> bool" where
  "is_refresh ui_refresh = True"
| "is_refresh call = False"

fun is_menu_show :: "ui_call \<Rightarrow> bool" where
  "is_menu_show (ui_menu_show its anc fg bg st) = True"
| "is_menu_show call = False"

fun is_info_show :: "ui_call \<Rightarrow> bool" where
  "is_info_show (ui_info_show ttl cont anc fc st) = True"
| "is_info_show call = False"

text \<open>The calls a function added to the backend's log.\<close>

definition new_calls :: "Client \<Rightarrow> Client \<Rightarrow> ui_call list" where
  "new_calls c c1 = drop (length (calls (m_ui c))) (calls (m_ui c1))"

text \<open>The keys that on\_buffer\_reload\_key tests for: \<^verbatim>\<open>y\<close> or \<^verbatim>\<open>ctrl('m')\<close>, \<^verbatim>\<open>n\<close> or \<^verbatim>\<open>Escape\<close>.\<close>

definition confirm_key :: "Key \<Rightarrow> bool" where
  "confirm_key k = (k = plain CHR ''y'' \<or> k = ctrl CHR ''m'')"

definition decline_key :: "Key \<Rightarrow> bool" where
  "decline_key k = (k = plain CHR ''n'' \<or> k = named Escape)"

text \<open>The client that check\_if\_buffer\_needs\_reloading leaves when it opens the dialog.\<close>

definition prompting :: "Buffer \<Rightarrow> Client \<Rightarrow> Client" where
  "prompting buf c =
     (info_show (''reload '' @ quoted (display_name buf) @ '' ?'')
        (quoted (display_name buf) @ '' was modified externally'' @ [CHR 0x0A]
           @ ''press <ret> or y to reload, <esc> or n to keep'') (0, 0) Prompt c)
       \<lparr>m_buffer_reload_dialog_opened := True,
        m_input_handler := (m_input_handler c)\<lparr>next_key := Some call_on_buffer_reload_key\<rparr>\<rparr>"

text \<open>The keys that the loop gives to \<^verbatim>\<open>handle_key\<close>: those no earlier branch took.\<close>

definition forwarded :: "Key \<Rightarrow> bool" where
  "forwarded k =
     (k \<noteq> ctrl CHR ''c'' \<and> k \<noteq> named FocusIn \<and> k \<noteq> named FocusOut \<and> modifiers k \<noteq> Resize)"

text \<open>
  The routing of one key in the words of the specification (4.1): the interrupt key
  broadcasts an interrupt signal to the process group; a focus-gained event runs the
  \<^verbatim>\<open>FocusIn\<close> hook with the session name and a focus-lost event the \<^verbatim>\<open>FocusOut\<close> hook; a
  resize event marks the window for a forced redraw; any other key is forwarded to the
  editing engine's key handler.
\<close>

definition spec_route :: "Key \<Rightarrow> nat \<Rightarrow> World \<Rightarrow> exn option \<times> World" where
  "spec_route k this w =
     (let c = client w this; ih = m_input_handler c
      in if k = ctrl CHR ''c''
         then (None, w\<lparr>sigint_broadcasts := sigint_broadcasts w + 1\<rparr>)
         else if k = named FocusIn
         then (None, set_client this
                 (c\<lparr>m_input_handler :=
                      ih\<lparr>hooks_run := hooks_run ih @ [(''FocusIn'', context_name ih)]\<rparr>\<rparr>) w)
         else if k = named FocusOut
         then (None, set_client this
                 (c\<lparr>m_input_handler :=
                      ih\<lparr>hooks_run := hooks_run ih @ [(''FocusOut'', context_name ih)]\<rparr>\<rparr>) w)
         else if modifiers k = Resize
         then (None, set_client this (c\<lparr>m_window := (m_window c)\<lparr>dirty := True\<rparr>\<rparr>) w)
         else handle_key k this w)"

text \<open>
  Taking the next key away: from the front of the queue when the queue holds one,
  from the input source otherwise.
\<close>

definition take_key :: "nat \<Rightarrow> World \<Rightarrow> World" where
  "take_key this w =
     (let c = client w this
      in set_client this
           (if m_pending_keys c \<noteq> [] then c\<lparr>m_pending_keys := tl (m_pending_keys c)\<rparr>
            else c\<lparr>m_ui := (m_ui c)\<lparr>input := tl (input (m_ui c))\<rparr>\<rparr>) w)"

text \<open>
  A dispatch in the words of the specification, over the keys it is to take, in order:
  each key is taken away and routed; the dispatch ends when no key remains, or with the
  exception that the routing of a key raised, in the state in which it was raised.
\<close>

fun spec_dispatch :: "Key list \<Rightarrow> nat \<Rightarrow> World \<Rightarrow> exn option \<times> World" where
  "spec_dispatch [] this w = (None, w)"
| "spec_dispatch (k # ks) this w =
     (case spec_route k this (take_key this w) of
        (Some e, w1) \<Rightarrow> (Some e, w1)
      | (None, w1) \<Rightarrow> spec_dispatch ks this w1)"

text \<open>The hooks that the focus events among the given keys run, in order.\<close>

definition focus_hooks :: "string \<Rightarrow> Key list \<Rightarrow> (string \<times> string) list" where
  "focus_hooks session_name ks =
     map (\<lambda>k. (if k = named FocusIn then ''FocusIn'' else ''FocusOut'', session_name))
       (filter (\<lambda>k. k = named FocusIn \<or> k = named FocusOut) ks)"

text \<open>
  With no one-shot handler installed, the engine alone decides whether a forwarded key
  raises: \<^verbatim>\<open>stop_at r ks\<close> is the number of keys of \<^verbatim>\<open>ks\<close> up to and with the first forwarded
  key on which \<^verbatim>\<open>r\<close> raises (all of them if there is none), and \<^verbatim>\<open>raised r ks\<close> is the
  exception raised there.
\<close>

fun stop_at :: "(Key \<Rightarrow> exn option) \<Rightarrow> Key list \<Rightarrow> nat" where
  "stop_at r [] = 0"
| "stop_at r (k # ks) = (if forwarded k \<and> r k \<noteq> None then 1 else Suc (stop_at r ks))"

fun raised :: "(Key \<Rightarrow> exn option) \<Rightarrow> Key list \<Rightarrow> exn option" where
  "raised r [] = None"
| "raised r (k # ks) = (if forwarded k \<and> r k \<noteq> None then r k else raised r ks)"

section \<open>Concrete worlds\<close>

text \<open>
  Two registered clients, 0 and 1, in the same state, both showing buffer 0, a file
  whose timestamp on disk is newer than the recorded one. The window is dirty and will
  scroll; the menu and the info are inline.
\<close>

definition demo_ui :: UserInterface where
  "demo_ui = \<lparr>input = [], calls = [], dimensions = (80, 24)\<rparr>"

definition demo_window :: Window where
  "demo_window =
     \<lparr>buffer = 0, position = (0, 0), win_dimensions = (80, 24),
      options = \<lparr>ui_options = [], modelinefmt = ''fmt'', autoreload = Ask\<rparr>,
      watched = True, dirty = True, scrolled_position = (5, 0), display_buffer = []\<rparr>"

definition demo_handler :: InputHandler where
  "demo_handler =
     \<lparr>context_name = ''client0'', user_hooks_disabled = True, selections = [0],
      hooks_run = [], is_recording = True, recording_reg = CHR ''q'',
      mode_line = [atom ''insert'' DefaultFace], next_key = None, handled_keys = [],
      engine_keys = [], engine_raises = (\<lambda>k. None)\<rparr>"

definition demo_client :: Client where
  "demo_client =
     \<lparr>m_ui = demo_ui, m_window = demo_window, m_input_handler = demo_handler,
      m_pending_keys = [], m_status_line = [], m_pending_status_line = [],
      m_mode_line = [],
      m_menu = \<lparr>items = [[atom ''item'' DefaultFace]], menu_anchor = (7, 3),
                menu_style = MenuInline, selected = 0\<rparr>,
      m_info = \<lparr>title = ''doc'', info_content = ''text'', info_anchor = (9, 4),
                info_style = InlineAbove\<rparr>,
      m_buffer_reload_dialog_opened = False, m_last_buffer = None\<rparr>"

definition demo_buffer :: Buffer where
  "demo_buffer =
     \<lparr>name = ''/tmp/notes'', display_name = ''notes'', flags = {File, Fifo},
      fs_timestamp = Time 1 0, is_modified = True, reloads = 0\<rparr>"

definition demo_world :: World where
  "demo_world =
     \<lparr>client = (\<lambda>j. demo_client), client_manager = [0, 1], removed_clients = [],
      free_windows = [], buffers = (\<lambda>b. demo_buffer), fs_time = (\<lambda>f. Time 2 0),
      reload_error = (\<lambda>f. None),
      expand = (\<lambda>j fmt. if fmt = ''bad'' then Inl ''no such variable'' else Inr fmt),
      parse_display_line = (\<lambda>str. Inr [atom str DefaultFace]),
      server_session = ''4242'', debug_buffer = [], sigint_broadcasts = 0\<rparr>"

definition demo_bad_fmt :: World where
  "demo_bad_fmt =
     set_client 0
       (demo_client\<lparr>m_window := demo_window\<lparr>options :=
          \<lparr>ui_options = [], modelinefmt = ''bad'', autoreload = Ask\<rparr>\<rparr>\<rparr>)
       demo_world"

text \<open>
  \<^verbatim>\<open>demo_bad_parse\<close>: the format string of client 0 expands, and the parser rejects what
  it expands to.
\<close>

definition demo_bad_parse :: World where
  "demo_bad_parse =
     (set_client 0
        (demo_client\<lparr>m_window := demo_window\<lparr>options :=
           \<lparr>ui_options = [], modelinefmt = ''{oops'', autoreload = Ask\<rparr>\<rparr>\<rparr>)
        demo_world)\<lparr>parse_display_line := (\<lambda>str. Inl (''unterminated face in '' @ str))\<rparr>"

text \<open>
  \<^verbatim>\<open>demo_always\<close>: client 0 reloads without asking. \<^verbatim>\<open>demo_asked\<close>: both clients have run
  the check under \<^verbatim>\<open>Ask\<close>, so the dialog is open on both.
\<close>

definition demo_always :: World where
  "demo_always =
     set_client 0
       (demo_client\<lparr>m_window := demo_window\<lparr>options :=
          \<lparr>ui_options = [], modelinefmt = ''fmt'', autoreload = Yes\<rparr>\<rparr>\<rparr>)
       demo_world"

definition demo_asked :: World where
  "demo_asked =
     snd (check_if_buffer_needs_reloading 1 (snd (check_if_buffer_needs_reloading 0 demo_world)))"

text \<open>A world in which client 0 has the given keys queued and the given keys ready.\<close>

definition demo_keys :: "Key list \<Rightarrow> Key list \<Rightarrow> World \<Rightarrow> World" where
  "demo_keys queued ready w =
     set_client 0
       ((client w 0)\<lparr>m_ui := (m_ui (client w 0))\<lparr>input := ready\<rparr>, m_pending_keys := queued\<rparr>) w"

text \<open>A world in which the engine of client 0 raises on the key \<^verbatim>\<open>a\<close>.\<close>

definition demo_raising :: World where
  "demo_raising =
     set_client 0
       (demo_client\<lparr>m_input_handler := demo_handler\<lparr>engine_raises :=
          (\<lambda>k. if k = plain CHR ''a'' then Some (runtime_error ''no such command'') else None)\<rparr>\<rparr>)
       demo_world"

text \<open>
  \<^verbatim>\<open>demo_unreadable\<close>: the dialog is open on clients 0 and 1, the file can no longer be
  read, and \<^verbatim>\<open>y\<close> is ready at the input source of client 0.
\<close>

definition demo_unreadable :: World where
  "demo_unreadable = demo_keys [] [plain CHR ''y'']
     (demo_asked\<lparr>reload_error := (\<lambda>f. Some ''cannot open file'')\<rparr>)"

section \<open>The loop that closes the dialogs, and what no handler changes\<close>

lemma close_buffer_reload_dialog_opened:
  "m_buffer_reload_dialog_opened c \<Longrightarrow> close_buffer_reload_dialog c = (None, dialog_closed c)"
  by (simp add: close_buffer_reload_dialog_def dialog_closed_def call_ui_def Let_def)

lemma dialog_closed_simps:
  "m_buffer_reload_dialog_opened (dialog_closed c) = False"
  "context_buffer (dialog_closed c) = context_buffer c"
  "m_pending_keys (dialog_closed c) = m_pending_keys c"
  "input (m_ui (dialog_closed c)) = input (m_ui c)"
  "calls (m_ui (dialog_closed c)) = calls (m_ui c) @ [ui_info_hide]"
  "next_key (m_input_handler (dialog_closed c)) = None"
  by (simp_all add: dialog_closed_def call_ui_def ui_do_def context_buffer_def reset_normal_mode_def)

lemma closed_where_hit:
  "context_buffer (cl j) = b \<Longrightarrow> m_buffer_reload_dialog_opened (cl j) \<Longrightarrow>
   closed_where b js (cl(j := dialog_closed (cl j))) = closed_where b (j # js) cl"
  by (auto simp add: fun_eq_iff closed_where_def dialog_closed_simps)

lemma closed_where_miss:
  "\<not> (context_buffer (cl j) = b \<and> m_buffer_reload_dialog_opened (cl j)) \<Longrightarrow>
   closed_where b js cl = closed_where b (j # js) cl"
  by (auto simp add: fun_eq_iff closed_where_def)

lemma closed_where_Nil: "closed_where b [] cl = cl"
  by (simp add: fun_eq_iff closed_where_def)

lemma client_set_client: "client (set_client j c w) = (client w)(j := c)"
  by (simp add: set_client_def)

lemma set_client_overwritten: "(set_client j c w)\<lparr>client := f\<rparr> = w\<lparr>client := f\<rparr>"
  by (simp add: set_client_def)

lemma close_reload_dialogs_eq:
  "close_reload_dialogs b js w = (None, w\<lparr>client := closed_where b js (client w)\<rparr>)"
proof (induction js arbitrary: w)
  case Nil
  show ?case by (simp add: closed_where_Nil)
next
  case (Cons j js)
  show ?case
  proof (cases "context_buffer (client w j) = b \<and> m_buffer_reload_dialog_opened (client w j)")
    case True
    then have "close_reload_dialogs b (j # js) w =
        close_reload_dialogs b js (set_client j (dialog_closed (client w j)) w)"
      by (simp add: close_buffer_reload_dialog_opened)
    also have "\<dots> = (None, w\<lparr>client :=
        closed_where b js ((client w)(j := dialog_closed (client w j)))\<rparr>)"
      by (simp only: Cons.IH client_set_client set_client_overwritten)
    also have "closed_where b js ((client w)(j := dialog_closed (client w j)))
        = closed_where b (j # js) (client w)"
      using True by (intro closed_where_hit) simp_all
    finally show ?thesis .
  next
    case False
    then have "close_reload_dialogs b (j # js) w = close_reload_dialogs b js w"
      by auto
    also have "\<dots> = (None, w\<lparr>client := closed_where b js (client w)\<rparr>)"
      by (rule Cons.IH)
    also have "closed_where b js (client w) = closed_where b (j # js) (client w)"
      using False by (rule closed_where_miss)
    finally show ?thesis .
  qed
qed

lemma same_keys_refl: "same_keys c c"
  by (simp add: same_keys_def)

lemma same_keys_dialog_closed: "same_keys c (dialog_closed c)"
  by (simp add: same_keys_def dialog_closed_simps)

lemma same_keys_closed_where: "same_keys (cl j) (closed_where b js cl j)"
  by (simp add: closed_where_def same_keys_refl same_keys_dialog_closed)

lemma same_keys_trans: "same_keys a b \<Longrightarrow> same_keys b c \<Longrightarrow> same_keys a c"
  by (simp add: same_keys_def)

lemma same_keys_close_reload_dialogs:
  "same_keys (client w j) (client (snd (close_reload_dialogs b js w)) j)"
  by (simp add: close_reload_dialogs_eq same_keys_closed_where)

lemma same_keys_reload_buffer:
  "same_keys (client w j) (client (snd (reload_buffer this w)) j)"
  by (simp add: reload_buffer_def reload_file_buffer_def set_buffer_def set_client_def
        print_status_def same_keys_def Let_def split: option.split)

lemma same_keys_on_buffer_reload_key:
  "same_keys (client w j) (client (snd (on_buffer_reload_key k this w)) j)"
proof -
  consider (confirm) "k = plain CHR ''y'' \<or> k = ctrl CHR ''m''"
    | (decline) "\<not> (k = plain CHR ''y'' \<or> k = ctrl CHR ''m'')" "k = plain CHR ''n'' \<or> k = named Escape"
    | (other) "\<not> (k = plain CHR ''y'' \<or> k = ctrl CHR ''m'')" "\<not> (k = plain CHR ''n'' \<or> k = named Escape)"
    by blast
  then show ?thesis
  proof cases
    case confirm
    obtain x w1 where r: "reload_buffer this w = (x, w1)"
      by (cases "reload_buffer this w")
    have k1: "same_keys (client w j) (client w1 j)"
      using same_keys_reload_buffer [of w j this] r by simp
    show ?thesis
    proof (cases x)
      case None
      with confirm r k1 show ?thesis
        by (simp add: on_buffer_reload_key_def)
           (rule same_keys_trans [OF k1 same_keys_close_reload_dialogs])
    next
      case (Some e)
      with confirm r k1 show ?thesis
        by (simp add: on_buffer_reload_key_def)
    qed
  next
    case decline
    then show ?thesis
      apply (simp add: on_buffer_reload_key_def Let_def)
      apply (rule same_keys_trans [OF _ same_keys_close_reload_dialogs])
      apply (simp add: same_keys_def set_client_def set_buffer_def print_status_def)
      done
  next
    case other
    then show ?thesis
      by (simp add: on_buffer_reload_key_def Let_def same_keys_def set_client_def
            print_status_def on_next_key_def)
  qed
qed

lemma same_keys_handle_key:
  "same_keys (client w j) (client (snd (handle_key k this w)) j)"
proof (cases "next_key (m_input_handler (client w this))")
  case None
  then show ?thesis
    by (simp add: handle_key_def Let_def same_keys_def set_client_def)
next
  case (Some cb)
  then show ?thesis
    apply (cases cb)
    apply (simp add: handle_key_def Let_def)
    apply (rule same_keys_trans [OF _ same_keys_on_buffer_reload_key])
    apply (simp add: same_keys_def set_client_def)
    done
qed

lemma same_keys_dispatch_key:
  "same_keys (client w j) (client (snd (dispatch_key k this w)) j)"
  unfolding dispatch_key_def Let_def
  by (simp add: same_keys_handle_key)
     (simp add: same_keys_def set_client_def killpg_sigint_def force_redraw_def run_hook_def)

lemma get_next_key_Some_waiting:
  "get_next_key mode c = (Some k, c1) \<Longrightarrow> waiting_keys c = k # waiting_keys c1"
  by (auto simp add: get_next_key_def waiting_keys_def is_key_available_def get_key_def
        split: list.splits if_splits)

lemma same_keys_waiting: "same_keys c c1 \<Longrightarrow> waiting_keys c1 = waiting_keys c"
  by (simp add: same_keys_def waiting_keys_def)

lemma drain_keys_stop:
  "get_next_key mode (client w this) = (None, c) \<Longrightarrow>
   drain_keys mode this w = (None, set_client this c w)"
  by (subst drain_keys.simps) simp

lemma drain_keys_raise:
  "get_next_key mode (client w this) = (Some k, c) \<Longrightarrow>
   dispatch_key k this (set_client this c w) = (Some e, w1) \<Longrightarrow>
   drain_keys mode this w = (Some e, w1)"
  by (subst drain_keys.simps) simp

lemma drain_keys_step:
  "get_next_key mode (client w this) = (Some k, c) \<Longrightarrow>
   dispatch_key k this (set_client this c w) = (None, w1) \<Longrightarrow>
   drain_keys mode this w = drain_keys mode this w1"
  by (subst drain_keys.simps) simp

lemmas demo_defs = demo_world_def demo_client_def demo_buffer_def demo_handler_def
  demo_window_def demo_ui_def

section \<open>The mode line\<close>

text \<open>
  Claim C9. The mode line is, in this order: first, when \<^verbatim>\<open>modelinefmt\<close> expands and the
  expanded string parses, the atoms that parsing the expanded string gives, and no line
  is written to the debug buffer; when the expansion raises, or the expansion succeeds
  and the parsing of the expanded string raises, one atom \<^verbatim>\<open>modelinefmt error, see *debug*
  buffer\<close> in the \<^verbatim>\<open>Error\<close> face, with the error written to the debug buffer; then, of the
  indicators \<^verbatim>\<open>[+]\<close>, \<^verbatim>\<open>[recording (r)]\<close>, \<^verbatim>\<open>[new file]\<close>, \<^verbatim>\<open>[no-hooks]\<close>, \<^verbatim>\<open>[fifo]\<close>, those whose
  condition holds, in the \<^verbatim>\<open>Information\<close> face; then one atom that is a space; then the
  atoms of the input handler's mode line; then the atom \<^verbatim>\<open> - name@[session]\<close>.
\<close>

theorem generate_mode_line_atoms:
  "let c = client w this;
       ih = m_input_handler c;
       buf = buffers w (context_buffer c);
       info_face = get_face ''Information'';
       rest = map snd (filter fst
                [(is_modified buf, atom ''[+]'' info_face),
                 (is_recording ih, atom (''[recording ('' @ [recording_reg ih] @ '')]'') info_face),
                 (New \<in> flags buf, atom ''[new file]'' info_face),
                 (user_hooks_disabled ih, atom ''[no-hooks]'' info_face),
                 (Fifo \<in> flags buf, atom ''[fifo]'' info_face)])
              @ [atom '' '' DefaultFace]
              @ mode_line ih
              @ [atom ('' - '' @ context_name ih @ ''@['' @ server_session w @ '']'') DefaultFace];
       placeholder = atom ''modelinefmt error, see *debug* buffer'' (get_face ''Error'');
       logged = (\<lambda>what. w\<lparr>debug_buffer :=
                   debug_buffer w @ [''Error while parsing modelinefmt: '' @ what]\<rparr>)
   in generate_mode_line this w =
        (case expand w this (modelinefmt (options (m_window c))) of
           Inl what \<Rightarrow> (placeholder # rest, logged what)
         | Inr str \<Rightarrow>
             (case parse_display_line w str of
                Inl what \<Rightarrow> (placeholder # rest, logged what)
              | Inr fmt_atoms \<Rightarrow> (fmt_atoms @ rest, w)))"
  by (simp add: generate_mode_line_def modelinefmt_line_def expand_and_parse_def indicators_def
        Let_def write_to_debug_buffer_def split: sum.split)

theorem generate_mode_line_atoms_witness:
  "fst (generate_mode_line 0 demo_world) =
     [atom ''fmt'' DefaultFace,
      atom ''[+]'' (RegisteredFace ''Information''),
      atom ''[recording (q)]'' (RegisteredFace ''Information''),
      atom ''[no-hooks]'' (RegisteredFace ''Information''),
      atom ''[fifo]'' (RegisteredFace ''Information''),
      atom '' '' DefaultFace,
      atom ''insert'' DefaultFace,
      atom '' - client0@[4242]'' DefaultFace]
   \<and> debug_buffer (snd (generate_mode_line 0 demo_world)) = []
   \<and> take 1 (fst (generate_mode_line 0 demo_bad_fmt)) =
     [atom ''modelinefmt error, see *debug* buffer'' (RegisteredFace ''Error'')]
   \<and> debug_buffer (snd (generate_mode_line 0 demo_bad_fmt)) =
     [''Error while parsing modelinefmt: no such variable'']
   \<and> fst (generate_mode_line 0 demo_bad_parse) =
     [atom ''modelinefmt error, see *debug* buffer'' (RegisteredFace ''Error''),
      atom ''[+]'' (RegisteredFace ''Information''),
      atom ''[recording (q)]'' (RegisteredFace ''Information''),
      atom ''[no-hooks]'' (RegisteredFace ''Information''),
      atom ''[fifo]'' (RegisteredFace ''Information''),
      atom '' '' DefaultFace,
      atom ''insert'' DefaultFace,
      atom '' - client0@[4242]'' DefaultFace]
   \<and> debug_buffer (snd (generate_mode_line 0 demo_bad_parse)) =
     [''Error while parsing modelinefmt: unterminated face in {oops'']"
  using generate_mode_line_atoms [of demo_world 0] generate_mode_line_atoms [of demo_bad_fmt 0]
    generate_mode_line_atoms [of demo_bad_parse 0]
  by (simp add: Let_def demo_bad_fmt_def demo_bad_parse_def demo_defs set_client_def
        context_buffer_def get_face_def)

lemma generate_mode_line_fst:
  "fst (generate_mode_line this w) =
     fst (modelinefmt_line this w)
     @ indicators (buffers w (context_buffer (client w this))) (m_input_handler (client w this))
     @ [atom '' '' DefaultFace]
     @ mode_line (m_input_handler (client w this))
     @ [atom ('' - '' @ context_name (m_input_handler (client w this)) @ ''@[''
               @ server_session w @ '']'') DefaultFace]"
  by (simp add: generate_mode_line_def Let_def case_prod_beta)

lemma generate_mode_line_snd:
  "snd (generate_mode_line this w) = snd (modelinefmt_line this w)"
  by (simp add: generate_mode_line_def Let_def case_prod_beta)

lemma modelinefmt_line_client: "client (snd (modelinefmt_line this w)) = client w"
  by (simp add: modelinefmt_line_def write_to_debug_buffer_def split: sum.split)

lemma generate_mode_line_client: "client (snd (generate_mode_line this w)) = client w"
  by (simp add: generate_mode_line_snd modelinefmt_line_client)

lemma modelinefmt_line_world:
  "expand (snd (modelinefmt_line this w)) = expand w"
  "parse_display_line (snd (modelinefmt_line this w)) = parse_display_line w"
  "server_session (snd (modelinefmt_line this w)) = server_session w"
  "buffers (snd (modelinefmt_line this w)) = buffers w"
  by (simp_all add: modelinefmt_line_def write_to_debug_buffer_def split: sum.split)

lemma generate_mode_line_fst_cong:
  assumes "expand w1 = expand w" "parse_display_line w1 = parse_display_line w"
    "server_session w1 = server_session w" "buffers w1 = buffers w"
    "m_input_handler (client w1 this) = m_input_handler (client w this)"
    "options (m_window (client w1 this)) = options (m_window (client w this))"
    "context_buffer (client w1 this) = context_buffer (client w this)"
  shows "fst (generate_mode_line this w1) = fst (generate_mode_line this w)"
proof -
  have "expand_and_parse w1 this fmt = expand_and_parse w this fmt" for fmt
    using assms(1,2) by (simp add: expand_and_parse_def split: sum.split)
  then have "fst (modelinefmt_line this w1) = fst (modelinefmt_line this w)"
    using assms by (simp add: modelinefmt_line_def split: sum.split)
  then show ?thesis
    using assms by (simp add: generate_mode_line_fst)
qed

section \<open>Redraw reconciliation\<close>

lemma redraw_window_frame:
  "options (m_window (redraw_window c)) = options (m_window c)"
  "buffer (m_window (redraw_window c)) = buffer (m_window c)"
  "m_input_handler (redraw_window c) = m_input_handler c"
  "m_status_line (redraw_window c) = m_status_line c"
  "m_pending_status_line (redraw_window c) = m_pending_status_line c"
  "m_mode_line (redraw_window c) = m_mode_line c"
  "m_menu (redraw_window c) = m_menu c"
  "m_info (redraw_window c) = m_info c"
  "position (m_window (redraw_window c)) = scrolled_position (m_window c)"
  by (simp_all add: redraw_window_def update_display_buffer_def call_ui_def
        reanchor_info_def reanchor_menu_def Let_def)

lemma generate_mode_line_after_redraw_window:
  "fst (generate_mode_line this (set_client this (redraw_window (client w this)) w))
     = fst (generate_mode_line this w)"
  by (auto simp add: generate_mode_line_fst modelinefmt_line_def expand_and_parse_def
        set_client_def context_buffer_def redraw_window_frame write_to_debug_buffer_def
        split: sum.split)

lemma redraw_window_calls:
  "calls (m_ui (redraw_window c)) =
     calls (m_ui c) @ [ui_draw (display_buffer (m_window c)) (get_face ''Default'')]
     @ (if scrolled_position (m_window c) \<noteq> position (m_window c)
        then (if items (m_menu c) \<noteq> [] \<and> menu_style (m_menu c) = MenuInline
              then [ui_menu_show (items (m_menu c))
                      (display_position (m_window (redraw_window c)) (menu_anchor (m_menu c)))
                      (get_face ''MenuForeground'') (get_face ''MenuBackground'')
                      (menu_style (m_menu c)),
                    ui_menu_select (selected (m_menu c))]
              else [])
           @ (if info_content (m_info c) \<noteq> [] \<and> is_inline (info_style (m_info c))
              then [ui_info_show (title (m_info c)) (info_content (m_info c))
                      (display_position (m_window (redraw_window c)) (info_anchor (m_info c)))
                      (get_face ''Information'') (info_style (m_info c))]
              else [])
        else [])"
  by (simp add: redraw_window_def update_display_buffer_def call_ui_def ui_do_def
        reanchor_info_def reanchor_menu_def Let_def display_position_def)

lemma redraw_status_calls:
  "calls (m_ui (redraw_status needs modeline c)) =
     calls (m_ui c)
     @ (if needs \<or> m_status_line c \<noteq> m_pending_status_line c \<or> modeline \<noteq> m_mode_line c
        then [ui_draw_status (m_pending_status_line c) modeline (get_face ''StatusLine'')]
        else [])"
  by (simp add: redraw_status_def call_ui_def ui_do_def Let_def)

lemma redraw_ifn_client:
  "client (redraw_ifn this w) this =
     call_ui ui_refresh
       (redraw_status (needs_redraw (m_window (client w this)))
          (fst (generate_mode_line this w))
          (if needs_redraw (m_window (client w this))
           then redraw_window (client w this) else client w this))"
proof (cases "needs_redraw (m_window (client w this))")
  case True
  then show ?thesis
    using generate_mode_line_after_redraw_window [of this w]
    by (simp add: redraw_ifn_def Let_def case_prod_beta set_client_def
          generate_mode_line_client)
next
  case False
  then show ?thesis
    by (simp add: redraw_ifn_def Let_def case_prod_beta set_client_def
          generate_mode_line_client)
qed

lemma redraw_status_frame:
  "m_menu (redraw_status needs modeline c) = m_menu c"
  "m_info (redraw_status needs modeline c) = m_info c"
  "m_window (redraw_status needs modeline c) = m_window c"
  by (simp_all add: redraw_status_def call_ui_def Let_def)

lemma redraw_status_lines:
  "m_status_line (redraw_status needs modeline c) =
     (if needs \<or> m_status_line c \<noteq> m_pending_status_line c \<or> modeline \<noteq> m_mode_line c
      then m_pending_status_line c else m_status_line c)"
  "m_mode_line (redraw_status needs modeline c) =
     (if needs \<or> m_status_line c \<noteq> m_pending_status_line c \<or> modeline \<noteq> m_mode_line c
      then modeline else m_mode_line c)"
  by (simp_all add: redraw_status_def call_ui_def Let_def)

lemma call_ui_frame:
  "calls (m_ui (call_ui call c)) = calls (m_ui c) @ [call]"
  "m_status_line (call_ui call c) = m_status_line c"
  "m_mode_line (call_ui call c) = m_mode_line c"
  "m_menu (call_ui call c) = m_menu c"
  "m_info (call_ui call c) = m_info c"
  "m_window (call_ui call c) = m_window c"
  by (simp_all add: call_ui_def ui_do_def)

lemma redraw_ifn_world:
  "expand (redraw_ifn this w) = expand w"
  "parse_display_line (redraw_ifn this w) = parse_display_line w"
  "server_session (redraw_ifn this w) = server_session w"
  "buffers (redraw_ifn this w) = buffers w"
  by (simp_all add: redraw_ifn_def Let_def case_prod_beta set_client_def
        generate_mode_line_snd modelinefmt_line_world)

lemma redraw_ifn_client_frame:
  "m_input_handler (client (redraw_ifn this w) this) = m_input_handler (client w this)"
  "options (m_window (client (redraw_ifn this w) this)) = options (m_window (client w this))"
  "context_buffer (client (redraw_ifn this w) this) = context_buffer (client w this)"
  by (simp_all add: redraw_ifn_client call_ui_def redraw_status_def redraw_window_frame
        context_buffer_def Let_def)

lemma generate_mode_line_after_redraw_ifn:
  "fst (generate_mode_line this (redraw_ifn this w)) = fst (generate_mode_line this w)"
  by (rule generate_mode_line_fst_cong) (simp_all add: redraw_ifn_world redraw_ifn_client_frame)

text \<open>
  Claim C1. In one call of redraw\_ifn, \<^verbatim>\<open>draw_status\<close> is called exactly when the window
  said it needs a redraw, or the pending status line's atoms differ from the last-drawn
  ones, or the mode line just built differs from the last-drawn one; it is called once,
  with the pending status line and the new mode line, which become the last-drawn pair
  (and stay as they were otherwise); and \<^verbatim>\<open>refresh\<close> is called exactly once, last, in
  every case.
\<close>

theorem redraw_ifn_draw_status:
  "let c = client w this;
       c1 = client (redraw_ifn this w) this;
       modeline = fst (generate_mode_line this w);
       redraw = (needs_redraw (m_window c) \<or> m_pending_status_line c \<noteq> m_status_line c
                 \<or> modeline \<noteq> m_mode_line c)
   in take (length (calls (m_ui c))) (calls (m_ui c1)) = calls (m_ui c)
      \<and> filter is_draw_status (new_calls c c1) =
          (if redraw
           then [ui_draw_status (m_pending_status_line c) modeline (get_face ''StatusLine'')]
           else [])
      \<and> m_status_line c1 = (if redraw then m_pending_status_line c else m_status_line c)
      \<and> m_mode_line c1 = (if redraw then modeline else m_mode_line c)
      \<and> filter is_refresh (new_calls c c1) = [ui_refresh]
      \<and> last (calls (m_ui c1)) = ui_refresh"
proof (cases "needs_redraw (m_window (client w this))")
  case True
  then show ?thesis
    unfolding Let_def new_calls_def
    by (simp add: redraw_ifn_client call_ui_frame redraw_status_calls redraw_status_lines
          redraw_window_calls redraw_window_frame)
next
  case False
  then show ?thesis
    unfolding Let_def new_calls_def
    by (auto simp add: redraw_ifn_client call_ui_frame redraw_status_calls redraw_status_lines)
qed

theorem redraw_ifn_draw_status_witness:
  "filter is_draw_status
     (new_calls (client demo_world 0) (client (redraw_ifn 0 demo_world) 0))
     = [ui_draw_status [] (fst (generate_mode_line 0 demo_world)) (RegisteredFace ''StatusLine'')]
   \<and> filter is_refresh
     (new_calls (client demo_world 0) (client (redraw_ifn 0 demo_world) 0)) = [ui_refresh]
   \<and> filter is_draw_status
     (new_calls (client (redraw_ifn 0 demo_world) 0)
        (client (redraw_ifn 0 (redraw_ifn 0 demo_world)) 0)) = []
   \<and> filter is_refresh
     (new_calls (client (redraw_ifn 0 demo_world) 0)
        (client (redraw_ifn 0 (redraw_ifn 0 demo_world)) 0)) = [ui_refresh]"
proof -
  define w1 where "w1 = redraw_ifn 0 demo_world"
  define ml where "ml = fst (generate_mode_line 0 demo_world)"
  have dirty0: "needs_redraw (m_window (client demo_world 0))"
    by (simp add: needs_redraw_def demo_defs)
  have first: "m_status_line (client w1 0) = []" "m_pending_status_line (client w1 0) = []"
      "m_mode_line (client w1 0) = ml" "\<not> needs_redraw (m_window (client w1 0))"
    unfolding w1_def ml_def
    by (simp_all add: redraw_ifn_client redraw_window_def update_display_buffer_def
          redraw_status_def reanchor_menu_def reanchor_info_def call_ui_def Let_def
          needs_redraw_def demo_defs)
  have same: "fst (generate_mode_line 0 w1) = ml"
    unfolding w1_def ml_def by (rule generate_mode_line_after_redraw_ifn)
  have pending0: "m_pending_status_line (client demo_world 0) = []"
    by (simp add: demo_defs)
  have "filter is_draw_status (new_calls (client demo_world 0) (client w1 0))
     = [ui_draw_status [] ml (RegisteredFace ''StatusLine'')]
   \<and> filter is_refresh (new_calls (client demo_world 0) (client w1 0)) = [ui_refresh]
   \<and> filter is_draw_status (new_calls (client w1 0) (client (redraw_ifn 0 w1) 0)) = []
   \<and> filter is_refresh (new_calls (client w1 0) (client (redraw_ifn 0 w1) 0)) = [ui_refresh]"
    using redraw_ifn_draw_status [of demo_world 0, folded w1_def ml_def]
      redraw_ifn_draw_status [of w1 0]
    by (simp add: Let_def first same dirty0 pending0 get_face_def)
  then show ?thesis
    unfolding w1_def ml_def .
qed

text \<open>
  Claim C8. In one call of redraw\_ifn, a \<^verbatim>\<open>menu_show\<close> is issued only if the window was
  dirty and its position changed with the redraw, and only for a menu that has items
  and whose style is inline; an \<^verbatim>\<open>info_show\<close> only on the same condition for an info
  with content and an inline style. The call carries the stored items (title, content)
  and style, and the anchor mapped through the window at its new position. Otherwise
  no show call is issued; the stored menu and info are unchanged in all cases.
\<close>

theorem redraw_ifn_overlays:
  "let c = client w this;
       c1 = client (redraw_ifn this w) this;
       moved = (needs_redraw (m_window c) \<and> position (m_window c1) \<noteq> position (m_window c))
   in filter is_menu_show (new_calls c c1) =
          (if moved \<and> items (m_menu c) \<noteq> [] \<and> menu_style (m_menu c) = MenuInline
           then [ui_menu_show (items (m_menu c))
                   (display_position (m_window c1) (menu_anchor (m_menu c)))
                   (get_face ''MenuForeground'') (get_face ''MenuBackground'')
                   (menu_style (m_menu c))]
           else [])
      \<and> filter is_info_show (new_calls c c1) =
          (if moved \<and> info_content (m_info c) \<noteq> [] \<and> is_inline (info_style (m_info c))
           then [ui_info_show (title (m_info c)) (info_content (m_info c))
                   (display_position (m_window c1) (info_anchor (m_info c)))
                   (get_face ''Information'') (info_style (m_info c))]
           else [])
      \<and> m_menu c1 = m_menu c \<and> m_info c1 = m_info c"
proof (cases "needs_redraw (m_window (client w this))")
  case True
  then show ?thesis
    unfolding Let_def new_calls_def
    by (simp add: redraw_ifn_client call_ui_frame redraw_status_calls redraw_status_frame
          redraw_window_calls redraw_window_frame)
next
  case False
  then show ?thesis
    unfolding Let_def new_calls_def
    by (simp add: redraw_ifn_client call_ui_frame redraw_status_calls redraw_status_frame)
qed

theorem redraw_ifn_overlays_witness:
  "filter is_menu_show (new_calls (client demo_world 0) (client (redraw_ifn 0 demo_world) 0))
     = [ui_menu_show [[atom ''item'' DefaultFace]] (2, 3) (RegisteredFace ''MenuForeground'')
          (RegisteredFace ''MenuBackground'') MenuInline]
   \<and> filter is_info_show (new_calls (client demo_world 0) (client (redraw_ifn 0 demo_world) 0))
     = [ui_info_show ''doc'' ''text'' (4, 4) (RegisteredFace ''Information'') InlineAbove]"
proof -
  define w1 where "w1 = redraw_ifn 0 demo_world"
  have pos: "position (m_window (client w1 0)) = (5, 0)"
    unfolding w1_def
    by (simp add: redraw_ifn_client redraw_window_frame redraw_status_frame call_ui_frame
          needs_redraw_def demo_defs)
  have "filter is_menu_show (new_calls (client demo_world 0) (client w1 0))
     = [ui_menu_show [[atom ''item'' DefaultFace]] (2, 3) (RegisteredFace ''MenuForeground'')
          (RegisteredFace ''MenuBackground'') MenuInline]
   \<and> filter is_info_show (new_calls (client demo_world 0) (client w1 0))
     = [ui_info_show ''doc'' ''text'' (4, 4) (RegisteredFace ''Information'') InlineAbove]"
    using redraw_ifn_overlays [of demo_world 0, folded w1_def]
    by (simp add: Let_def pos display_position_def needs_redraw_def is_inline_def get_face_def
          demo_defs)
  then show ?thesis
    unfolding w1_def .
qed

section \<open>The buffer-reload dialog\<close>

lemma on_buffer_reload_key_other:
  assumes "\<not> confirm_key k" "\<not> decline_key k"
  shows "on_buffer_reload_key k this w =
     (None, set_client this
        ((client w this)
           \<lparr>m_pending_status_line :=
              line_of (quoted (key_to_str k) @ '' is not a valid choice'')
                (get_face ''Error''),
            m_input_handler := (m_input_handler (client w this))
                                  \<lparr>next_key := Some call_on_buffer_reload_key\<rparr>\<rparr>) w)"
  using assms
  by (simp add: on_buffer_reload_key_def confirm_key_def decline_key_def Let_def
        print_status_def on_next_key_def)

lemma on_buffer_reload_key_decline:
  assumes "decline_key k"
  shows "on_buffer_reload_key k this w =
     (let b = context_buffer (client w this); buf = buffers w b
      in (None,
          w\<lparr>buffers := (buffers w)(b := buf\<lparr>fs_timestamp := fs_time w (name buf)\<rparr>),
            client := closed_where b (client_manager w)
                        ((client w)(this := (client w this)
                           \<lparr>m_pending_status_line :=
                              line_of (quoted (display_name buf) @ '' kept'')
                                (get_face ''Information'')\<rparr>))\<rparr>))"
proof -
  have nc: "\<not> (k = plain CHR ''y'' \<or> k = ctrl CHR ''m'')"
    using assms by (auto simp add: decline_key_def plain_def ctrl_def named_def)
  show ?thesis
    using assms nc
    by (simp add: on_buffer_reload_key_def decline_key_def Let_def close_reload_dialogs_eq
          set_buffer_def set_client_def print_status_def get_fs_timestamp_def)
qed

lemma reload_buffer_ok:
  assumes "reload_error w (name (buffers w (context_buffer (client w this)))) = None"
  shows "reload_buffer this w =
     (let b = context_buffer (client w this); buf = buffers w b
      in (None,
          w\<lparr>buffers := (buffers w)(b := buf\<lparr>reloads := Suc (reloads buf),
                                                fs_timestamp := fs_time w (name buf)\<rparr>),
            client := (client w)(this := (client w this)
                           \<lparr>m_pending_status_line :=
                              line_of (quoted (display_name buf) @ '' reloaded'')
                                (get_face ''Information'')\<rparr>)\<rparr>))"
  using assms
  by (simp add: reload_buffer_def reload_file_buffer_def Let_def set_buffer_def set_client_def
        print_status_def)

lemma reload_buffer_fails:
  assumes "reload_error w (name (buffers w (context_buffer (client w this)))) = Some what"
  shows "reload_buffer this w =
     (let b = context_buffer (client w this); buf = buffers w b
      in (Some (runtime_error what),
          w\<lparr>buffers := (buffers w)(b := buf\<lparr>reloads := Suc (reloads buf)\<rparr>)\<rparr>))"
  using assms
  by (simp add: reload_buffer_def reload_file_buffer_def Let_def set_buffer_def)

lemma on_buffer_reload_key_confirm_ok:
  assumes "confirm_key k"
    "reload_error w (name (buffers w (context_buffer (client w this)))) = None"
  shows "on_buffer_reload_key k this w =
     (let b = context_buffer (client w this); buf = buffers w b
      in (None,
          w\<lparr>buffers := (buffers w)(b := buf\<lparr>reloads := Suc (reloads buf),
                                                fs_timestamp := fs_time w (name buf)\<rparr>),
            client := closed_where b (client_manager w)
                        ((client w)(this := (client w this)
                           \<lparr>m_pending_status_line :=
                              line_of (quoted (display_name buf) @ '' reloaded'')
                                (get_face ''Information'')\<rparr>))\<rparr>))"
  using assms
  by (simp add: on_buffer_reload_key_def confirm_key_def Let_def reload_buffer_ok
        close_reload_dialogs_eq)

lemma on_buffer_reload_key_confirm_fails:
  assumes "confirm_key k"
    "reload_error w (name (buffers w (context_buffer (client w this)))) = Some what"
  shows "on_buffer_reload_key k this w =
     (let b = context_buffer (client w this); buf = buffers w b
      in (Some (runtime_error what),
          w\<lparr>buffers := (buffers w)(b := buf\<lparr>reloads := Suc (reloads buf)\<rparr>)\<rparr>))"
  using assms
  by (simp add: on_buffer_reload_key_def confirm_key_def Let_def reload_buffer_fails)

lemma dialog_closed_frame:
  "m_pending_status_line (dialog_closed c) = m_pending_status_line c"
  "m_window (dialog_closed c) = m_window c"
  "handled_keys (m_input_handler (dialog_closed c)) = handled_keys (m_input_handler c)"
  "engine_keys (m_input_handler (dialog_closed c)) = engine_keys (m_input_handler c)"
  "engine_raises (m_input_handler (dialog_closed c)) = engine_raises (m_input_handler c)"
  by (simp_all add: dialog_closed_def call_ui_def reset_normal_mode_def)

lemma closed_where_frame:
  "m_pending_status_line (closed_where b js cl j) = m_pending_status_line (cl j)"
  "m_window (closed_where b js cl j) = m_window (cl j)"
  "context_buffer (closed_where b js cl j) = context_buffer (cl j)"
  "handled_keys (m_input_handler (closed_where b js cl j)) = handled_keys (m_input_handler (cl j))"
  "engine_keys (m_input_handler (closed_where b js cl j)) = engine_keys (m_input_handler (cl j))"
  by (simp_all add: closed_where_def dialog_closed_frame dialog_closed_simps)

text \<open>
  Claim C4. Given a key that is neither a confirm key nor a decline key,
  on\_buffer\_reload\_key sets the pending status line to the one atom
  \<^verbatim>\<open>'<key>' is not a valid choice\<close> in the \<^verbatim>\<open>Error\<close> face, installs the same one-shot
  handler again on this client, and changes nothing else: no buffer is touched (no
  reload, no timestamp written), no client's dialog flag changes, and no backend call
  is made for any client.
\<close>

theorem invalid_key_keeps_dialog:
  assumes "\<not> confirm_key k" and "\<not> decline_key k"
  shows "let c = client w this;
             r = on_buffer_reload_key k this w
         in r = (None, set_client this
                   (c\<lparr>m_pending_status_line :=
                        line_of (quoted (key_to_str k) @ '' is not a valid choice'')
                          (get_face ''Error''),
                      m_input_handler :=
                        (m_input_handler c)\<lparr>next_key := Some call_on_buffer_reload_key\<rparr>\<rparr>) w)
            \<and> buffers (snd r) = buffers w
            \<and> (\<forall>j. m_buffer_reload_dialog_opened (client (snd r) j)
                       = m_buffer_reload_dialog_opened (client w j))
            \<and> (\<forall>j. calls (m_ui (client (snd r) j)) = calls (m_ui (client w j)))"
  using assms
  by (simp add: on_buffer_reload_key_other Let_def set_client_def)

text \<open>
  Claim C5. On a decline key, on\_buffer\_reload\_key returns normally, having recorded as
  the buffer's timestamp the one the filesystem shows now and set the pending status to
  \<^verbatim>\<open>'<name>' kept\<close>; it leaves the filesystem's timestamps as they are, and
  check\_if\_buffer\_needs\_reloading called right after changes nothing.
\<close>

theorem decline_suppresses_reprompt:
  assumes "decline_key k"
  shows "let b = context_buffer (client w this);
             buf = buffers w b;
             r = on_buffer_reload_key k this w
         in fst r = None
            \<and> fs_timestamp (buffers (snd r) b) = get_fs_timestamp w (name buf)
            \<and> m_pending_status_line (client (snd r) this) =
                line_of (quoted (display_name buf) @ '' kept'') (get_face ''Information'')
            \<and> fs_time (snd r) = fs_time w
            \<and> check_if_buffer_needs_reloading this (snd r) = (None, snd r)"
  using assms
  by (simp add: on_buffer_reload_key_decline Let_def closed_where_frame context_buffer_def
        check_if_buffer_needs_reloading_def get_fs_timestamp_def)

lemma on_buffer_reload_key_engine_keys:
  "engine_keys (m_input_handler (client (snd (on_buffer_reload_key k this w)) j))
     = engine_keys (m_input_handler (client w j))"
proof -
  consider (other) "\<not> confirm_key k" "\<not> decline_key k" | (decline) "decline_key k"
    | (ok) "confirm_key k"
        "reload_error w (name (buffers w (context_buffer (client w this)))) = None"
    | (fails) what where "confirm_key k"
        "reload_error w (name (buffers w (context_buffer (client w this)))) = Some what"
    by (cases "reload_error w (name (buffers w (context_buffer (client w this))))") auto
  then show ?thesis
  proof cases
    case other
    then show ?thesis
      by (simp add: on_buffer_reload_key_other set_client_def)
  next
    case decline
    then show ?thesis
      by (simp add: on_buffer_reload_key_decline Let_def closed_where_frame)
  next
    case ok
    then show ?thesis
      by (simp add: on_buffer_reload_key_confirm_ok Let_def closed_where_frame)
  next
    case fails
    then show ?thesis
      by (simp add: on_buffer_reload_key_confirm_fails Let_def)
  qed
qed

lemma handle_key_intercepted:
  assumes "next_key (m_input_handler (client w this)) = Some call_on_buffer_reload_key"
  shows "handle_key k this w =
     on_buffer_reload_key k this
       (set_client this
          ((client w this)\<lparr>m_input_handler := (m_input_handler (client w this))
              \<lparr>handled_keys := handled_keys (m_input_handler (client w this)) @ [k],
               next_key := None\<rparr>\<rparr>) w)"
  using assms by (simp add: handle_key_def Let_def)

lemma handle_key_intercepted_engine_keys:
  assumes "next_key (m_input_handler (client w this)) = Some call_on_buffer_reload_key"
  shows "engine_keys (m_input_handler (client (snd (handle_key k this w)) this))
     = engine_keys (m_input_handler (client w this))"
  using assms
  by (simp add: handle_key_intercepted on_buffer_reload_key_engine_keys set_client_def)

lemma reload_buffer_frame:
  "reloads (buffers (snd (reload_buffer this w)) (context_buffer (client w this)))
     = Suc (reloads (buffers w (context_buffer (client w this))))"
  "m_buffer_reload_dialog_opened (client (snd (reload_buffer this w)) j)
     = m_buffer_reload_dialog_opened (client w j)"
  "m_ui (client (snd (reload_buffer this w)) j) = m_ui (client w j)"
  "m_info (client (snd (reload_buffer this w)) j) = m_info (client w j)"
  "m_input_handler (client (snd (reload_buffer this w)) j) = m_input_handler (client w j)"
  by (cases "reload_error w (name (buffers w (context_buffer (client w this))))";
      simp add: reload_buffer_ok reload_buffer_fails Let_def)+

lemma check_if_buffer_needs_reloading_ask:
  assumes "\<not> m_buffer_reload_dialog_opened (client w this)"
    "File \<in> flags (buffers w (context_buffer (client w this)))"
    "autoreload (options (m_window (client w this))) = Ask"
    "fs_time w (name (buffers w (context_buffer (client w this)))) \<noteq> InvalidTime"
    "fs_time w (name (buffers w (context_buffer (client w this))))
       \<noteq> fs_timestamp (buffers w (context_buffer (client w this)))"
  shows "check_if_buffer_needs_reloading this w =
     (None, set_client this
        (prompting (buffers w (context_buffer (client w this))) (client w this)) w)"
  using assms
  by (simp add: check_if_buffer_needs_reloading_def Let_def on_next_key_def info_show_def
        call_ui_def prompting_def get_fs_timestamp_def)

lemma prompting_simps:
  "m_buffer_reload_dialog_opened (prompting buf c)"
  "next_key (m_input_handler (prompting buf c)) = Some call_on_buffer_reload_key"
  "calls (m_ui (prompting buf c)) = calls (m_ui c) @
     [ui_info_show (''reload '' @ quoted (display_name buf) @ '' ?'')
        (quoted (display_name buf) @ '' was modified externally'' @ [CHR 0x0A]
           @ ''press <ret> or y to reload, <esc> or n to keep'')
        (0, 0) (get_face ''Information'') Prompt]"
  "engine_keys (m_input_handler (prompting buf c)) = engine_keys (m_input_handler c)"
  "handled_keys (m_input_handler (prompting buf c)) = handled_keys (m_input_handler c)"
  "context_buffer (prompting buf c) = context_buffer c"
  "m_window (prompting buf c) = m_window c"
  "m_pending_keys (prompting buf c) = m_pending_keys c"
  "input (m_ui (prompting buf c)) = input (m_ui c)"
  by (simp_all add: prompting_def info_show_def call_ui_def ui_do_def is_inline_def Let_def
        context_buffer_def)

text \<open>
  Claim C2. check\_if\_buffer\_needs\_reloading returns the world unchanged when the
  dialog is already open, the buffer has no \<^verbatim>\<open>File\<close> flag, the policy is \<^verbatim>\<open>No\<close>, or the
  file's timestamp is \<^verbatim>\<open>InvalidTime\<close> or equal to the recorded one. Otherwise, under
  \<^verbatim>\<open>Ask\<close>, only this client changes: its dialog flag is set, one \<^verbatim>\<open>info_show\<close> in the
  \<^verbatim>\<open>Prompt\<close> style whose title and body hold the buffer's display name is issued, and
  the one-shot handler is installed, so that \<^verbatim>\<open>handle_key\<close> gives the next key to
  on\_buffer\_reload\_key and the engine's ordinary routing does not see it. Under the
  remaining policy the result is that of reload\_buffer: the reload operation is
  invoked on the buffer, no dialog is opened, no backend call is made and no handler is
  installed.
\<close>

theorem check_if_buffer_needs_reloading_cases:
  "let c = client w this;
       buf = buffers w (context_buffer c);
       policy = autoreload (options (m_window c));
       ts = get_fs_timestamp w (name buf);
       r = check_if_buffer_needs_reloading this w;
       c1 = client (snd r) this
   in if m_buffer_reload_dialog_opened c \<or> File \<notin> flags buf \<or> policy = No
         \<or> ts = InvalidTime \<or> ts = fs_timestamp buf
      then r = (None, w)
      else if policy = Ask
      then r = (None, set_client this c1 w)
           \<and> m_buffer_reload_dialog_opened c1
           \<and> calls (m_ui c1) = calls (m_ui c) @
               [ui_info_show (''reload '' @ quoted (display_name buf) @ '' ?'')
                  (quoted (display_name buf) @ '' was modified externally'' @ [CHR 0x0A]
                     @ ''press <ret> or y to reload, <esc> or n to keep'')
                  (0, 0) (get_face ''Information'') Prompt]
           \<and> next_key (m_input_handler c1) = Some call_on_buffer_reload_key
           \<and> (\<forall>k. handle_key k this (snd r) =
                  on_buffer_reload_key k this
                    (set_client this
                       (c1\<lparr>m_input_handler := (m_input_handler c1)
                             \<lparr>handled_keys := handled_keys (m_input_handler c1) @ [k],
                              next_key := None\<rparr>\<rparr>) (snd r)))
           \<and> (\<forall>k. engine_keys (m_input_handler (client (snd (handle_key k this (snd r))) this))
                  = engine_keys (m_input_handler c))
      else r = reload_buffer this w
           \<and> reloads (buffers (snd r) (context_buffer c)) = Suc (reloads buf)
           \<and> \<not> m_buffer_reload_dialog_opened c1
           \<and> calls (m_ui c1) = calls (m_ui c)
           \<and> m_info c1 = m_info c
           \<and> next_key (m_input_handler c1) = next_key (m_input_handler c)"
proof -
  define c where "c = client w this"
  define buf where "buf = buffers w (context_buffer c)"
  define policy where "policy = autoreload (options (m_window c))"
  define ts where "ts = get_fs_timestamp w (name buf)"
  define r where "r = check_if_buffer_needs_reloading this w"
  define c1 where "c1 = client (snd r) this"
  note defs = c_def buf_def policy_def ts_def r_def c1_def
  consider (noop) "m_buffer_reload_dialog_opened c \<or> File \<notin> flags buf \<or> policy = No
         \<or> ts = InvalidTime \<or> ts = fs_timestamp buf"
    | (ask) "\<not> (m_buffer_reload_dialog_opened c \<or> File \<notin> flags buf \<or> policy = No
         \<or> ts = InvalidTime \<or> ts = fs_timestamp buf)" "policy = Ask"
    | (always) "\<not> (m_buffer_reload_dialog_opened c \<or> File \<notin> flags buf \<or> policy = No
         \<or> ts = InvalidTime \<or> ts = fs_timestamp buf)" "policy \<noteq> Ask"
    by blast
  then have "if m_buffer_reload_dialog_opened c \<or> File \<notin> flags buf \<or> policy = No
         \<or> ts = InvalidTime \<or> ts = fs_timestamp buf
      then r = (None, w)
      else if policy = Ask
      then r = (None, set_client this c1 w)
           \<and> m_buffer_reload_dialog_opened c1
           \<and> calls (m_ui c1) = calls (m_ui c) @
               [ui_info_show (''reload '' @ quoted (display_name buf) @ '' ?'')
                  (quoted (display_name buf) @ '' was modified externally'' @ [CHR 0x0A]
                     @ ''press <ret> or y to reload, <esc> or n to keep'')
                  (0, 0) (get_face ''Information'') Prompt]
           \<and> next_key (m_input_handler c1) = Some call_on_buffer_reload_key
           \<and> (\<forall>k. handle_key k this (snd r) =
                  on_buffer_reload_key k this
                    (set_client this
                       (c1\<lparr>m_input_handler := (m_input_handler c1)
                             \<lparr>handled_keys := handled_keys (m_input_handler c1) @ [k],
                              next_key := None\<rparr>\<rparr>) (snd r)))
           \<and> (\<forall>k. engine_keys (m_input_handler (client (snd (handle_key k this (snd r))) this))
                  = engine_keys (m_input_handler c))
      else r = reload_buffer this w
           \<and> reloads (buffers (snd r) (context_buffer c)) = Suc (reloads buf)
           \<and> \<not> m_buffer_reload_dialog_opened c1
           \<and> calls (m_ui c1) = calls (m_ui c)
           \<and> m_info c1 = m_info c
           \<and> next_key (m_input_handler c1) = next_key (m_input_handler c)"
  proof cases
    case noop
    then show ?thesis
      unfolding defs by (auto simp add: check_if_buffer_needs_reloading_def Let_def)
  next
    case ask
    have r: "r = (None, set_client this (prompting buf c) w)"
      using ask unfolding defs
      by (intro check_if_buffer_needs_reloading_ask) (simp_all add: get_fs_timestamp_def)
    have c1: "c1 = prompting buf c"
      unfolding c1_def by (simp add: r set_client_def)
    have nk: "next_key (m_input_handler (client (snd r) this)) = Some call_on_buffer_reload_key"
      using c1 unfolding c1_def by (simp add: prompting_simps)
    have ek: "engine_keys (m_input_handler c1) = engine_keys (m_input_handler c)"
      by (simp add: c1 prompting_simps)
    have "r = (None, set_client this c1 w)"
      using r c1 by simp
    moreover have "m_buffer_reload_dialog_opened c1"
      by (simp add: c1 prompting_simps)
    moreover have "calls (m_ui c1) = calls (m_ui c) @
               [ui_info_show (''reload '' @ quoted (display_name buf) @ '' ?'')
                  (quoted (display_name buf) @ '' was modified externally'' @ [CHR 0x0A]
                     @ ''press <ret> or y to reload, <esc> or n to keep'')
                  (0, 0) (get_face ''Information'') Prompt]"
      by (simp add: c1 prompting_simps)
    moreover have "next_key (m_input_handler c1) = Some call_on_buffer_reload_key"
      by (simp add: c1 prompting_simps)
    moreover have "handle_key k this (snd r) =
                  on_buffer_reload_key k this
                    (set_client this
                       (c1\<lparr>m_input_handler := (m_input_handler c1)
                             \<lparr>handled_keys := handled_keys (m_input_handler c1) @ [k],
                              next_key := None\<rparr>\<rparr>) (snd r))" for k
      using handle_key_intercepted [OF nk, of k] by (simp add: c1_def)
    moreover have "engine_keys (m_input_handler (client (snd (handle_key k this (snd r))) this))
                  = engine_keys (m_input_handler c)" for k
      using handle_key_intercepted_engine_keys [OF nk, of k] ek by (simp add: c1_def)
    ultimately show ?thesis
      using ask by simp
  next
    case always
    have r: "r = reload_buffer this w"
      using always unfolding defs
      by (simp add: check_if_buffer_needs_reloading_def Let_def)
    show ?thesis
      using always unfolding r c1_def
      by (simp add: reload_buffer_frame c_def buf_def)
  qed
  then show ?thesis
    unfolding defs Let_def .
qed

lemma take_window_buffer:
  "take_window b ws = Some (found, rest) \<Longrightarrow> buffer (fst found) = b"
  by (induction ws arbitrary: found rest) (auto split: if_splits option.splits)

lemma get_free_window_buffer: "buffer (fst (fst (get_free_window b w))) = b"
  by (auto simp add: get_free_window_def new_window_def dest: take_window_buffer
        split: option.split)

lemma swap_window_client:
  "client (swap_window b this c w) this =
     (let win = fst (fst (get_free_window b
                  (add_free_window ((m_window c)\<lparr>watched := False\<rparr>)
                     (selections (m_input_handler c)) w)))
      in c\<lparr>m_last_buffer := Some (buffer (m_window c)),
           m_ui := ui_do (ui_set_ui_options (ui_options (options win))) (m_ui c),
           m_window := win\<lparr>watched := True, win_dimensions := dimensions (m_ui c)\<rparr>,
           m_input_handler :=
             run_hook ''WinDisplay''
               (name (buffers w b))
               ((m_input_handler c)\<lparr>selections :=
                  snd (fst (get_free_window b
                    (add_free_window ((m_window c)\<lparr>watched := False\<rparr>)
                       (selections (m_input_handler c)) w)))\<rparr>)\<rparr>)"
  by (simp add: swap_window_def Let_def case_prod_beta set_client_def call_ui_def ui_do_def
        get_free_window_def add_free_window_def split: option.split)

text \<open>
  Claim C10. change\_buffer returns normally, and what it does is the window swap applied
  to the client with the dialog closed, if it was open. So on return the dialog flag is
  false, the client shows the new buffer and remembers the old one; when the dialog was
  open, \<^verbatim>\<open>info_hide\<close> was called before the \<^verbatim>\<open>set_ui_options\<close> of the swap and no one-shot
  handler is left.
\<close>

theorem change_buffer_closes_dialog:
  "let c = client w this;
       r = change_buffer b this w;
       c1 = client (snd r) this
   in r = (None, swap_window b this (if m_buffer_reload_dialog_opened c then dialog_closed c else c) w)
      \<and> \<not> m_buffer_reload_dialog_opened c1
      \<and> buffer (m_window c1) = b
      \<and> m_last_buffer c1 = Some (buffer (m_window c))
      \<and> calls (m_ui c1) =
           calls (m_ui c) @ (if m_buffer_reload_dialog_opened c then [ui_info_hide] else [])
             @ [ui_set_ui_options (ui_options (options (m_window c1)))]
      \<and> next_key (m_input_handler c1) =
           (if m_buffer_reload_dialog_opened c then None else next_key (m_input_handler c))"
proof (cases "m_buffer_reload_dialog_opened (client w this)")
  case True
  then have r: "change_buffer b this w = (None, swap_window b this (dialog_closed (client w this)) w)"
    by (simp add: change_buffer_def close_buffer_reload_dialog_opened)
  show ?thesis
    using True get_free_window_buffer
    by (simp add: r Let_def swap_window_client dialog_closed_simps dialog_closed_frame
          run_hook_def ui_do_def)
next
  case False
  then have r: "change_buffer b this w = (None, swap_window b this (client w this) w)"
    by (simp add: change_buffer_def)
  show ?thesis
    using False get_free_window_buffer
    by (simp add: r Let_def swap_window_client run_hook_def ui_do_def)
qed

subsection \<open>Concrete runs of the dialog\<close>

lemma demo_world_facts:
  "m_buffer_reload_dialog_opened (client demo_world j) = False"
  "context_buffer (client demo_world j) = 0"
  "buffers demo_world b = demo_buffer"
  "autoreload (options (m_window (client demo_world j))) = Ask"
  "fs_time demo_world f = Time 2 0"
  "reload_error demo_world f = None"
  "calls (m_ui (client demo_world j)) = []"
  "client_manager demo_world = [0, 1]"
  "next_key (m_input_handler (client demo_world j)) = None"
  by (simp_all add: demo_defs context_buffer_def)

lemma demo_buffer_facts:
  "flags demo_buffer = {File, Fifo}"
  "name demo_buffer = ''/tmp/notes''"
  "display_name demo_buffer = ''notes''"
  "fs_timestamp demo_buffer = Time 1 0"
  "reloads demo_buffer = 0"
  by (simp_all add: demo_buffer_def)

theorem check_if_buffer_needs_reloading_cases_witness:
  "fst (check_if_buffer_needs_reloading 0 demo_world) = None
   \<and> m_buffer_reload_dialog_opened (client (snd (check_if_buffer_needs_reloading 0 demo_world)) 0)
   \<and> calls (m_ui (client (snd (check_if_buffer_needs_reloading 0 demo_world)) 0)) =
       [ui_info_show (''reload '' @ quoted ''notes'' @ '' ?'')
          (quoted ''notes'' @ '' was modified externally'' @ [CHR 0x0A]
             @ ''press <ret> or y to reload, <esc> or n to keep'')
          (0, 0) (RegisteredFace ''Information'') Prompt]
   \<and> next_key (m_input_handler (client (snd (check_if_buffer_needs_reloading 0 demo_world)) 0))
       = Some call_on_buffer_reload_key
   \<and> check_if_buffer_needs_reloading 0 (snd (check_if_buffer_needs_reloading 0 demo_world))
       = (None, snd (check_if_buffer_needs_reloading 0 demo_world))
   \<and> reloads (buffers (snd (check_if_buffer_needs_reloading 0 demo_always)) 0) = 1
   \<and> \<not> m_buffer_reload_dialog_opened
         (client (snd (check_if_buffer_needs_reloading 0 demo_always)) 0)"
proof -
  define w1 where "w1 = snd (check_if_buffer_needs_reloading 0 demo_world)"
  have always: "m_buffer_reload_dialog_opened (client demo_always 0) = False"
    "context_buffer (client demo_always 0) = 0" "buffers demo_always 0 = demo_buffer"
    "autoreload (options (m_window (client demo_always 0))) = Yes"
    "fs_time demo_always ''/tmp/notes'' = Time 2 0"
    by (simp_all add: demo_always_def set_client_def demo_defs context_buffer_def)
  note ask = check_if_buffer_needs_reloading_cases [of demo_world 0, unfolded Let_def,
      folded w1_def, simplified demo_world_facts demo_buffer_facts get_fs_timestamp_def
      get_face_def, simplified]
  have r0: "check_if_buffer_needs_reloading 0 demo_world = (None, set_client 0 (client w1 0) demo_world)"
    using ask by blast
  have first: "fst (check_if_buffer_needs_reloading 0 demo_world) = None
      \<and> m_buffer_reload_dialog_opened (client w1 0)
      \<and> calls (m_ui (client w1 0)) =
       [ui_info_show (''reload '' @ quoted ''notes'' @ '' ?'')
          (quoted ''notes'' @ '' was modified externally'' @ [CHR 0x0A]
             @ ''press <ret> or y to reload, <esc> or n to keep'')
          (0, 0) (RegisteredFace ''Information'') Prompt]
      \<and> next_key (m_input_handler (client w1 0)) = Some call_on_buffer_reload_key"
    using ask arg_cong [OF r0, of fst] by simp
  then have "check_if_buffer_needs_reloading 0 w1 = (None, w1)"
    using check_if_buffer_needs_reloading_cases [of w1 0]
    by (simp add: Let_def)
  moreover have "reloads (buffers (snd (check_if_buffer_needs_reloading 0 demo_always)) 0) = 1
      \<and> \<not> m_buffer_reload_dialog_opened
         (client (snd (check_if_buffer_needs_reloading 0 demo_always)) 0)"
    using check_if_buffer_needs_reloading_cases [of demo_always 0, unfolded Let_def,
      simplified always demo_buffer_facts get_fs_timestamp_def, simplified]
    by (metis One_nat_def)
  ultimately show ?thesis
    using first unfolding w1_def by simp
qed

theorem invalid_key_keeps_dialog_witness:
  "on_buffer_reload_key (plain CHR ''x'') 0 demo_asked =
     (None, set_client 0
        ((client demo_asked 0)
           \<lparr>m_pending_status_line :=
              [atom (quoted ''x'' @ '' is not a valid choice'') (RegisteredFace ''Error'')],
            m_input_handler := (m_input_handler (client demo_asked 0))
              \<lparr>next_key := Some call_on_buffer_reload_key\<rparr>\<rparr>) demo_asked)
   \<and> buffers (snd (on_buffer_reload_key (plain CHR ''x'') 0 demo_asked)) = buffers demo_asked"
proof -
  have "\<not> confirm_key (plain CHR ''x'')" "\<not> decline_key (plain CHR ''x'')"
    by (simp_all add: confirm_key_def decline_key_def plain_def ctrl_def named_def)
  from invalid_key_keeps_dialog [OF this, of demo_asked 0]
  show ?thesis
    by (simp add: Let_def key_to_str_def plain_def line_of_def get_face_def set_client_def)
qed

lemma demo_asked_eq:
  "demo_asked =
     set_client 1 (prompting demo_buffer demo_client)
       (set_client 0 (prompting demo_buffer demo_client) demo_world)"
proof -
  have one: "check_if_buffer_needs_reloading 0 demo_world =
      (None, set_client 0 (prompting demo_buffer demo_client) demo_world)"
    using check_if_buffer_needs_reloading_ask [of demo_world 0]
    by (simp add: demo_world_facts demo_buffer_facts) (simp add: demo_world_def)
  have two: "check_if_buffer_needs_reloading 1
        (set_client 0 (prompting demo_buffer demo_client) demo_world) =
      (None, set_client 1 (prompting demo_buffer demo_client)
               (set_client 0 (prompting demo_buffer demo_client) demo_world))"
    using check_if_buffer_needs_reloading_ask
      [of "set_client 0 (prompting demo_buffer demo_client) demo_world" 1]
    by (simp add: set_client_def demo_world_facts demo_buffer_facts)
      (simp add: demo_world_def)
  show ?thesis
    by (simp only: demo_asked_def one two snd_conv)
qed

lemma demo_asked_facts:
  "client demo_asked 0 = prompting demo_buffer demo_client"
  "client demo_asked 1 = prompting demo_buffer demo_client"
  "buffers demo_asked b = demo_buffer"
  "fs_time demo_asked f = Time 2 0"
  "client_manager demo_asked = [0, 1]"
  "reload_error demo_asked f = None"
  by (simp_all add: demo_asked_eq set_client_def) (simp_all add: demo_world_def)

lemma demo_client_facts:
  "context_buffer demo_client = 0"
  "calls (m_ui demo_client) = []"
  "m_buffer_reload_dialog_opened demo_client = False"
  "buffer (m_window demo_client) = 0"
  by (simp_all add: demo_client_def demo_window_def demo_ui_def context_buffer_def)

theorem decline_suppresses_reprompt_witness:
  "fst (on_buffer_reload_key (plain CHR ''n'') 0 demo_asked) = None
   \<and> fs_timestamp (buffers (snd (on_buffer_reload_key (plain CHR ''n'') 0 demo_asked)) 0)
       = Time 2 0
   \<and> m_pending_status_line (client (snd (on_buffer_reload_key (plain CHR ''n'') 0 demo_asked)) 0)
       = [atom (quoted ''notes'' @ '' kept'') (RegisteredFace ''Information'')]
   \<and> check_if_buffer_needs_reloading 0 (snd (on_buffer_reload_key (plain CHR ''n'') 0 demo_asked))
       = (None, snd (on_buffer_reload_key (plain CHR ''n'') 0 demo_asked))"
proof -
  have "decline_key (plain CHR ''n'')"
    by (simp add: decline_key_def)
  from decline_suppresses_reprompt [OF this, of demo_asked 0]
  show ?thesis
    by (simp add: Let_def demo_asked_facts prompting_simps demo_client_facts demo_buffer_facts
          get_fs_timestamp_def line_of_def get_face_def)
qed

theorem change_buffer_closes_dialog_witness:
  "fst (change_buffer 3 0 demo_asked) = None
   \<and> \<not> m_buffer_reload_dialog_opened (client (snd (change_buffer 3 0 demo_asked)) 0)
   \<and> buffer (m_window (client (snd (change_buffer 3 0 demo_asked)) 0)) = 3
   \<and> m_last_buffer (client (snd (change_buffer 3 0 demo_asked)) 0) = Some 0
   \<and> next_key (m_input_handler (client (snd (change_buffer 3 0 demo_asked)) 0)) = None
   \<and> new_calls (client demo_asked 0) (client (snd (change_buffer 3 0 demo_asked)) 0)
       = [ui_info_hide,
          ui_set_ui_options
            (ui_options (options (m_window (client (snd (change_buffer 3 0 demo_asked)) 0))))]"
proof -
  define w1 where "w1 = snd (change_buffer 3 0 demo_asked)"
  note inst = change_buffer_closes_dialog [of demo_asked 0 3, unfolded Let_def,
      folded w1_def, simplified demo_asked_facts prompting_simps demo_client_facts, simplified]
  have r: "fst (change_buffer 3 0 demo_asked) = None"
    using inst by simp
  have "\<not> m_buffer_reload_dialog_opened (client w1 0)
   \<and> buffer (m_window (client w1 0)) = 3
   \<and> m_last_buffer (client w1 0) = Some 0
   \<and> next_key (m_input_handler (client w1 0)) = None
   \<and> new_calls (client demo_asked 0) (client w1 0)
       = [ui_info_hide, ui_set_ui_options (ui_options (options (m_window (client w1 0))))]"
    using inst
    by (simp add: new_calls_def demo_asked_facts prompting_simps demo_client_facts)
  then show ?thesis
    using r unfolding w1_def by simp
qed

section \<open>Key dispatch\<close>

text \<open>
  Claim C6. In \<^verbatim>\<open>Urgent\<close> mode, with a key ready at the input source,
  handle\_available\_input returns normally having taken exactly that one key from the
  input source, whatever the pending queue holds. If the key is \<^verbatim>\<open>ctrl('c')\<close> one \<^verbatim>\<open>SIGINT\<close>
  is broadcast and the queue is unchanged; otherwise no signal is sent and the key is
  appended at the back of the queue. In both cases the input handler is untouched (no
  key is given to \<^verbatim>\<open>handle_key\<close>) and no backend call is made.
\<close>

theorem urgent_key_is_queued_or_signalled:
  assumes "input (m_ui (client w this)) = k # rest"
  shows "let c = client w this;
             r = handle_available_input Urgent this w;
             c1 = client (snd r) this
         in fst r = None
            \<and> input (m_ui c1) = rest
            \<and> m_pending_keys c1 =
                (if k = ctrl CHR ''c'' then m_pending_keys c else m_pending_keys c @ [k])
            \<and> sigint_broadcasts (snd r) =
                (if k = ctrl CHR ''c'' then Suc (sigint_broadcasts w) else sigint_broadcasts w)
            \<and> m_input_handler c1 = m_input_handler c
            \<and> calls (m_ui c1) = calls (m_ui c)"
  using assms
  by (simp add: handle_available_input_def get_key_def Let_def set_client_def killpg_sigint_def)

lemma demo_keys_facts:
  "input (m_ui (client (demo_keys queued ready w) 0)) = ready"
  "m_pending_keys (client (demo_keys queued ready w) 0) = queued"
  "m_input_handler (client (demo_keys queued ready w) 0) = m_input_handler (client w 0)"
  "sigint_broadcasts (demo_keys queued ready w) = sigint_broadcasts w"
  by (simp_all add: demo_keys_def set_client_def)

theorem urgent_key_is_queued_or_signalled_witness:
  "m_pending_keys (client (snd (handle_available_input Urgent 0
       (demo_keys [plain CHR ''a''] [ctrl CHR ''c'', plain CHR ''b''] demo_world))) 0)
     = [plain CHR ''a'']
   \<and> sigint_broadcasts (snd (handle_available_input Urgent 0
       (demo_keys [plain CHR ''a''] [ctrl CHR ''c'', plain CHR ''b''] demo_world))) = 1
   \<and> input (m_ui (client (snd (handle_available_input Urgent 0
       (demo_keys [plain CHR ''a''] [ctrl CHR ''c'', plain CHR ''b''] demo_world))) 0))
     = [plain CHR ''b'']
   \<and> m_pending_keys (client (snd (handle_available_input Urgent 0
       (demo_keys [plain CHR ''a''] [plain CHR ''b''] demo_world))) 0)
     = [plain CHR ''a'', plain CHR ''b'']
   \<and> handled_keys (m_input_handler (client (snd (handle_available_input Urgent 0
       (demo_keys [plain CHR ''a''] [plain CHR ''b''] demo_world))) 0)) = []"
proof -
  have h: "handled_keys (m_input_handler (client demo_world 0)) = []"
    "sigint_broadcasts demo_world = 0"
    by (simp_all add: demo_defs)
  have ne: "plain CHR ''b'' \<noteq> ctrl CHR ''c''"
    by (simp add: plain_def ctrl_def)
  show ?thesis
    using urgent_key_is_queued_or_signalled
      [of "demo_keys [plain CHR ''a''] [ctrl CHR ''c'', plain CHR ''b''] demo_world" 0
        "ctrl CHR ''c''" "[plain CHR ''b'']"]
      urgent_key_is_queued_or_signalled
      [of "demo_keys [plain CHR ''a''] [plain CHR ''b''] demo_world" 0
        "plain CHR ''b''" "[]"]
    by (simp add: Let_def demo_keys_facts h ne)
qed

lemma on_buffer_reload_key_handled_keys:
  "handled_keys (m_input_handler (client (snd (on_buffer_reload_key k this w)) j))
     = handled_keys (m_input_handler (client w j))"
proof -
  consider (other) "\<not> confirm_key k" "\<not> decline_key k" | (decline) "decline_key k"
    | (ok) "confirm_key k"
        "reload_error w (name (buffers w (context_buffer (client w this)))) = None"
    | (fails) what where "confirm_key k"
        "reload_error w (name (buffers w (context_buffer (client w this)))) = Some what"
    by (cases "reload_error w (name (buffers w (context_buffer (client w this))))") auto
  then show ?thesis
  proof cases
    case other
    then show ?thesis
      by (simp add: on_buffer_reload_key_other set_client_def)
  next
    case decline
    then show ?thesis
      by (simp add: on_buffer_reload_key_decline Let_def closed_where_frame)
  next
    case ok
    then show ?thesis
      by (simp add: on_buffer_reload_key_confirm_ok Let_def closed_where_frame)
  next
    case fails
    then show ?thesis
      by (simp add: on_buffer_reload_key_confirm_fails Let_def)
  qed
qed

lemma handle_key_handled_keys:
  "handled_keys (m_input_handler (client (snd (handle_key k this w)) this))
     = handled_keys (m_input_handler (client w this)) @ [k]"
proof (cases "next_key (m_input_handler (client w this))")
  case None
  then show ?thesis
    by (simp add: handle_key_def Let_def set_client_def)
next
  case (Some cb)
  then have "next_key (m_input_handler (client w this)) = Some call_on_buffer_reload_key"
    by (cases cb) simp
  then show ?thesis
    by (simp add: handle_key_intercepted on_buffer_reload_key_handled_keys set_client_def)
qed

lemma dispatch_key_handled_keys:
  "handled_keys (m_input_handler (client (snd (dispatch_key k this w)) this))
     = handled_keys (m_input_handler (client w this)) @ (if forwarded k then [k] else [])"
proof (cases "forwarded k")
  case True
  then have "dispatch_key k this w = handle_key k this w"
    by (simp add: dispatch_key_def forwarded_def Let_def)
  with True show ?thesis
    by (simp add: handle_key_handled_keys)
next
  case False
  then show ?thesis
    by (auto simp add: dispatch_key_def forwarded_def Let_def set_client_def killpg_sigint_def
          run_hook_def force_redraw_def)
qed

lemma dispatch_key_raises_forwarded:
  "dispatch_key k this w = (Some e, w1) \<Longrightarrow> forwarded k"
  by (auto simp add: dispatch_key_def forwarded_def Let_def split: if_splits)

lemma get_next_key_contract:
  "get_next_key mode c =
     (if m_pending_keys c \<noteq> []
      then (Some (hd (m_pending_keys c)), c\<lparr>m_pending_keys := tl (m_pending_keys c)\<rparr>)
      else if mode \<noteq> Pending \<and> input (m_ui c) \<noteq> []
      then (Some (hd (input (m_ui c))), c\<lparr>m_ui := (m_ui c)\<lparr>input := tl (input (m_ui c))\<rparr>\<rparr>)
      else (None, c))"
  by (cases "m_pending_keys c"; cases "input (m_ui c)")
     (simp_all add: get_next_key_def is_key_available_def get_key_def)

lemma drain_keys_normal:
  "\<exists>n\<le>length (waiting_keys (client w this)).
      handled_keys (m_input_handler (client (snd (drain_keys Normal this w)) this))
        = handled_keys (m_input_handler (client w this))
          @ filter forwarded (take n (waiting_keys (client w this)))
      \<and> m_pending_keys (client (snd (drain_keys Normal this w)) this)
        = drop n (m_pending_keys (client w this))
      \<and> input (m_ui (client (snd (drain_keys Normal this w)) this))
        = drop (n - length (m_pending_keys (client w this))) (input (m_ui (client w this)))
      \<and> (if fst (drain_keys Normal this w) = None
         then n = length (waiting_keys (client w this))
         else 0 < n \<and> forwarded (waiting_keys (client w this) ! (n - 1)))"
proof (induction "Normal" this w rule: drain_keys.induct)
  case (1 this w)
  let ?c = "client w this"
  obtain x c where g: "get_next_key Normal ?c = (x, c)"
    by (cases "get_next_key Normal ?c")
  show ?case
  proof (cases x)
    case None
    with g have empty: "m_pending_keys ?c = []" "input (m_ui ?c) = []" and c: "c = ?c"
      by (auto simp add: get_next_key_contract split: if_splits)
    have d: "drain_keys Normal this w = (None, set_client this c w)"
      using g None by (simp add: drain_keys_stop)
    show ?thesis
      by (rule exI [of _ 0]) (simp add: d c empty waiting_keys_def set_client_def)
  next
    case (Some k)
    let ?w0 = "set_client this c w"
    have wk: "waiting_keys ?c = k # waiting_keys c"
      using g Some by (simp add: get_next_key_Some_waiting)
    have shape: "(m_pending_keys ?c = k # m_pending_keys c \<and> input (m_ui c) = input (m_ui ?c))
        \<or> (m_pending_keys ?c = [] \<and> m_pending_keys c = [] \<and> input (m_ui ?c) = k # input (m_ui c))"
      using g Some
      by (cases "m_pending_keys ?c"; cases "input (m_ui ?c)")
        (auto simp add: get_next_key_contract split: if_splits)
    have hc: "handled_keys (m_input_handler c) = handled_keys (m_input_handler ?c)"
      using g Some by (auto simp add: get_next_key_contract split: if_splits)
    obtain xo w1 where dk: "dispatch_key k this ?w0 = (xo, w1)"
      by (cases "dispatch_key k this ?w0")
    have keys1: "m_pending_keys (client w1 this) = m_pending_keys c"
        "input (m_ui (client w1 this)) = input (m_ui c)"
      using same_keys_dispatch_key [of ?w0 this k this] dk
      by (simp_all add: same_keys_def client_set_client)
    have wk1: "waiting_keys (client w1 this) = waiting_keys c"
      using keys1 by (simp add: waiting_keys_def)
    have h1: "handled_keys (m_input_handler (client w1 this))
        = handled_keys (m_input_handler ?c) @ (if forwarded k then [k] else [])"
      using dispatch_key_handled_keys [of k this ?w0] dk hc
      by (simp add: client_set_client)
    show ?thesis
    proof (cases xo)
      case None
      have d: "drain_keys Normal this w = drain_keys Normal this w1"
        using g Some dk None by (simp add: drain_keys_step)
      from "1.hyps" [OF g [symmetric] Some dk [symmetric] None]
      obtain n where n: "n \<le> length (waiting_keys (client w1 this))"
        "handled_keys (m_input_handler (client (snd (drain_keys Normal this w1)) this))
          = handled_keys (m_input_handler (client w1 this))
            @ filter forwarded (take n (waiting_keys (client w1 this)))"
        "m_pending_keys (client (snd (drain_keys Normal this w1)) this)
          = drop n (m_pending_keys (client w1 this))"
        "input (m_ui (client (snd (drain_keys Normal this w1)) this))
          = drop (n - length (m_pending_keys (client w1 this))) (input (m_ui (client w1 this)))"
        "if fst (drain_keys Normal this w1) = None
         then n = length (waiting_keys (client w1 this))
         else 0 < n \<and> forwarded (waiting_keys (client w1 this) ! (n - 1))"
        by blast
      show ?thesis
      proof (rule exI [of _ "Suc n"], intro conjI)
        show "Suc n \<le> length (waiting_keys ?c)"
          using n(1) by (simp add: wk wk1)
        show "handled_keys (m_input_handler (client (snd (drain_keys Normal this w)) this))
            = handled_keys (m_input_handler ?c) @ filter forwarded (take (Suc n) (waiting_keys ?c))"
          using n(2) by (simp add: d h1 wk wk1)
        show "m_pending_keys (client (snd (drain_keys Normal this w)) this)
            = drop (Suc n) (m_pending_keys ?c)"
          using n(3) shape by (auto simp add: d keys1)
        show "input (m_ui (client (snd (drain_keys Normal this w)) this))
            = drop (Suc n - length (m_pending_keys ?c)) (input (m_ui ?c))"
          using n(4) shape by (auto simp add: d keys1)
        show "if fst (drain_keys Normal this w) = None
            then Suc n = length (waiting_keys ?c)
            else 0 < Suc n \<and> forwarded (waiting_keys ?c ! (Suc n - 1))"
          using n(5) by (auto simp add: d wk wk1 nth_Cons')
      qed
    next
      case (Some e)
      have d: "drain_keys Normal this w = (Some e, w1)"
        using g \<open>x = Some k\<close> dk Some by (simp add: drain_keys_raise)
      have fk: "forwarded k"
        using dk Some by (auto dest: dispatch_key_raises_forwarded)
      show ?thesis
        using shape
        by (intro exI [of _ 1]) (auto simp add: d wk h1 keys1 fk)
    qed
  qed
qed

lemma catch_frame:
  "handled_keys (m_input_handler (client (snd (catch_client_removed this
       (catch_runtime_error this r))) this))
     = handled_keys (m_input_handler (client (snd r) this))"
  "m_pending_keys (client (snd (catch_client_removed this (catch_runtime_error this r))) this)
     = m_pending_keys (client (snd r) this)"
  "input (m_ui (client (snd (catch_client_removed this (catch_runtime_error this r))) this))
     = input (m_ui (client (snd r) this))"
  "m_buffer_reload_dialog_opened
     (client (snd (catch_client_removed this (catch_runtime_error this r))) j)
     = m_buffer_reload_dialog_opened (client (snd r) j)"
  "next_key (m_input_handler (client (snd (catch_client_removed this
       (catch_runtime_error this r))) j))
     = next_key (m_input_handler (client (snd r) j))"
  "calls (m_ui (client (snd (catch_client_removed this (catch_runtime_error this r))) j))
     = calls (m_ui (client (snd r) j))"
  by (cases r; cases "fst r"; cases "the (fst r)";
      simp add: catch_client_removed_def catch_runtime_error_def remove_client_def
        set_client_def print_status_def run_hook_def Let_def)+

lemma set_client_same: "set_client this (client w this) w = w"
  by (simp add: set_client_def)

lemma dispatch_key_spec_route: "dispatch_key k this w = spec_route k this w"
  by (simp add: dispatch_key_def spec_route_def Let_def killpg_sigint_def run_hook_def
        force_redraw_def)

lemma get_next_key_normal_take:
  assumes "waiting_keys (client w this) = k # ks"
  shows "get_next_key Normal (client w this) = (Some k, client (take_key this w) this)"
    and "set_client this (client (take_key this w) this) w = take_key this w"
    and "waiting_keys (client (take_key this w) this) = ks"
  using assms
  by (cases "m_pending_keys (client w this)";
      simp add: get_next_key_contract take_key_def Let_def waiting_keys_def set_client_def)+

lemma drain_keys_spec_dispatch:
  "waiting_keys (client w this) = keys \<Longrightarrow>
   drain_keys Normal this w = spec_dispatch keys this w"
proof (induction keys arbitrary: w)
  case Nil
  then have "get_next_key Normal (client w this) = (None, client w this)"
    by (simp add: get_next_key_contract waiting_keys_def)
  then show ?case
    by (simp add: drain_keys_stop set_client_same)
next
  case (Cons k ks)
  note take = get_next_key_normal_take [OF Cons.prems]
  obtain xo w1 where dk: "dispatch_key k this (take_key this w) = (xo, w1)"
    by (cases "dispatch_key k this (take_key this w)")
  show ?case
  proof (cases xo)
    case None
    have "waiting_keys (client w1 this) = ks"
      using same_keys_dispatch_key [of "take_key this w" this k this] dk take(3)
      by (simp add: same_keys_waiting)
    then have "drain_keys Normal this w1 = spec_dispatch ks this w1"
      by (rule Cons.IH)
    moreover have "drain_keys Normal this w = drain_keys Normal this w1"
      using drain_keys_step [OF take(1), of w1] dk None by (simp add: take(2))
    ultimately show ?thesis
      using dk None by (simp add: dispatch_key_spec_route)
  next
    case (Some e)
    have "drain_keys Normal this w = (Some e, w1)"
      using drain_keys_raise [OF take(1), of e w1] dk Some by (simp add: take(2))
    then show ?thesis
      using dk Some by (simp add: dispatch_key_spec_route)
  qed
qed

lemma closed_where_hooks:
  "hooks_run (m_input_handler (closed_where b js cl j)) = hooks_run (m_input_handler (cl j))"
  "context_name (m_input_handler (closed_where b js cl j)) = context_name (m_input_handler (cl j))"
  by (simp_all add: closed_where_def dialog_closed_def call_ui_def reset_normal_mode_def)

lemma on_buffer_reload_key_untouched:
  "sigint_broadcasts (snd (on_buffer_reload_key k this w)) = sigint_broadcasts w"
  "hooks_run (m_input_handler (client (snd (on_buffer_reload_key k this w)) j))
     = hooks_run (m_input_handler (client w j))"
  "context_name (m_input_handler (client (snd (on_buffer_reload_key k this w)) j))
     = context_name (m_input_handler (client w j))"
  "m_window (client (snd (on_buffer_reload_key k this w)) j) = m_window (client w j)"
proof -
  consider (other) "\<not> confirm_key k" "\<not> decline_key k" | (decline) "decline_key k"
    | (ok) "confirm_key k"
        "reload_error w (name (buffers w (context_buffer (client w this)))) = None"
    | (fails) what where "confirm_key k"
        "reload_error w (name (buffers w (context_buffer (client w this)))) = Some what"
    by (cases "reload_error w (name (buffers w (context_buffer (client w this))))") auto
  then have "sigint_broadcasts (snd (on_buffer_reload_key k this w)) = sigint_broadcasts w
    \<and> hooks_run (m_input_handler (client (snd (on_buffer_reload_key k this w)) j))
        = hooks_run (m_input_handler (client w j))
    \<and> context_name (m_input_handler (client (snd (on_buffer_reload_key k this w)) j))
        = context_name (m_input_handler (client w j))
    \<and> m_window (client (snd (on_buffer_reload_key k this w)) j) = m_window (client w j)"
  proof cases
    case other
    then show ?thesis
      by (simp add: on_buffer_reload_key_other set_client_def)
  next
    case decline
    then show ?thesis
      by (simp add: on_buffer_reload_key_decline Let_def closed_where_frame closed_where_hooks)
  next
    case ok
    then show ?thesis
      by (simp add: on_buffer_reload_key_confirm_ok Let_def closed_where_frame
            closed_where_hooks)
  next
    case fails
    then show ?thesis
      by (simp add: on_buffer_reload_key_confirm_fails Let_def)
  qed
  then show "sigint_broadcasts (snd (on_buffer_reload_key k this w)) = sigint_broadcasts w"
    and "hooks_run (m_input_handler (client (snd (on_buffer_reload_key k this w)) j))
        = hooks_run (m_input_handler (client w j))"
    and "context_name (m_input_handler (client (snd (on_buffer_reload_key k this w)) j))
        = context_name (m_input_handler (client w j))"
    and "m_window (client (snd (on_buffer_reload_key k this w)) j) = m_window (client w j)"
    by simp_all
qed

lemma handle_key_untouched:
  "sigint_broadcasts (snd (handle_key k this w)) = sigint_broadcasts w"
  "hooks_run (m_input_handler (client (snd (handle_key k this w)) this))
     = hooks_run (m_input_handler (client w this))"
  "context_name (m_input_handler (client (snd (handle_key k this w)) this))
     = context_name (m_input_handler (client w this))"
  "m_window (client (snd (handle_key k this w)) this) = m_window (client w this)"
proof -
  have "sigint_broadcasts (snd (handle_key k this w)) = sigint_broadcasts w
    \<and> hooks_run (m_input_handler (client (snd (handle_key k this w)) this))
     = hooks_run (m_input_handler (client w this))
    \<and> context_name (m_input_handler (client (snd (handle_key k this w)) this))
     = context_name (m_input_handler (client w this))
    \<and> m_window (client (snd (handle_key k this w)) this) = m_window (client w this)"
  proof (cases "next_key (m_input_handler (client w this))")
    case None
    then show ?thesis
      by (simp add: handle_key_def Let_def set_client_def)
  next
    case (Some cb)
    then have nk: "next_key (m_input_handler (client w this)) = Some call_on_buffer_reload_key"
      by (cases cb) simp
    show ?thesis
      by (simp add: handle_key_intercepted [OF nk] on_buffer_reload_key_untouched
            set_client_def)
  qed
  then show "sigint_broadcasts (snd (handle_key k this w)) = sigint_broadcasts w"
    and "hooks_run (m_input_handler (client (snd (handle_key k this w)) this))
     = hooks_run (m_input_handler (client w this))"
    and "context_name (m_input_handler (client (snd (handle_key k this w)) this))
     = context_name (m_input_handler (client w this))"
    and "m_window (client (snd (handle_key k this w)) this) = m_window (client w this)"
    by simp_all
qed

lemma dispatch_key_effects:
  "sigint_broadcasts (snd (dispatch_key k this w))
     = sigint_broadcasts w + length (filter (\<lambda>k. k = ctrl CHR ''c'') [k])"
  "hooks_run (m_input_handler (client (snd (dispatch_key k this w)) this))
     = hooks_run (m_input_handler (client w this))
       @ focus_hooks (context_name (m_input_handler (client w this))) [k]"
  "context_name (m_input_handler (client (snd (dispatch_key k this w)) this))
     = context_name (m_input_handler (client w this))"
  "dirty (m_window (client (snd (dispatch_key k this w)) this))
     = (dirty (m_window (client w this)) \<or> modifiers k = Resize)"
proof -
  have distinct: "ctrl CHR ''c'' \<noteq> named FocusIn" "ctrl CHR ''c'' \<noteq> named FocusOut"
      "named FocusIn \<noteq> named FocusOut" "modifiers (ctrl CHR ''c'') \<noteq> Resize"
      "modifiers (named FocusIn) \<noteq> Resize" "modifiers (named FocusOut) \<noteq> Resize"
    by (simp_all add: ctrl_def named_def)
  consider (fwd) "forwarded k" | (int) "k = ctrl CHR ''c''" | (fin) "k = named FocusIn"
    | (fout) "k = named FocusOut"
    | (res) "modifiers k = Resize" "k \<noteq> ctrl CHR ''c''" "k \<noteq> named FocusIn"
        "k \<noteq> named FocusOut"
    by (auto simp add: forwarded_def)
  then have "sigint_broadcasts (snd (dispatch_key k this w))
     = sigint_broadcasts w + length (filter (\<lambda>k. k = ctrl CHR ''c'') [k])
    \<and> hooks_run (m_input_handler (client (snd (dispatch_key k this w)) this))
     = hooks_run (m_input_handler (client w this))
       @ focus_hooks (context_name (m_input_handler (client w this))) [k]
    \<and> context_name (m_input_handler (client (snd (dispatch_key k this w)) this))
     = context_name (m_input_handler (client w this))
    \<and> dirty (m_window (client (snd (dispatch_key k this w)) this))
     = (dirty (m_window (client w this)) \<or> modifiers k = Resize)"
  proof cases
    case fwd
    then have "dispatch_key k this w = handle_key k this w"
      by (simp add: dispatch_key_def forwarded_def Let_def)
    with fwd show ?thesis
      by (simp add: handle_key_untouched focus_hooks_def forwarded_def)
  next
    case int
    then show ?thesis
      using distinct
      by (simp add: dispatch_key_def Let_def killpg_sigint_def focus_hooks_def)
  next
    case fin
    then show ?thesis
      using distinct
      by (simp add: dispatch_key_def Let_def set_client_def run_hook_def focus_hooks_def)
  next
    case fout
    then show ?thesis
      using distinct
      by (simp add: dispatch_key_def Let_def set_client_def run_hook_def focus_hooks_def)
  next
    case res
    then show ?thesis
      by (simp add: dispatch_key_def Let_def set_client_def force_redraw_def focus_hooks_def)
  qed
  then show "sigint_broadcasts (snd (dispatch_key k this w))
     = sigint_broadcasts w + length (filter (\<lambda>k. k = ctrl CHR ''c'') [k])"
    and "hooks_run (m_input_handler (client (snd (dispatch_key k this w)) this))
     = hooks_run (m_input_handler (client w this))
       @ focus_hooks (context_name (m_input_handler (client w this))) [k]"
    and "context_name (m_input_handler (client (snd (dispatch_key k this w)) this))
     = context_name (m_input_handler (client w this))"
    and "dirty (m_window (client (snd (dispatch_key k this w)) this))
     = (dirty (m_window (client w this)) \<or> modifiers k = Resize)"
    by simp_all
qed


lemma take_key_untouched:
  "sigint_broadcasts (take_key this w) = sigint_broadcasts w"
  "m_input_handler (client (take_key this w) this) = m_input_handler (client w this)"
  "m_window (client (take_key this w) this) = m_window (client w this)"
  by (simp_all add: take_key_def Let_def set_client_def)

lemma take_key_shape:
  assumes "waiting_keys (client w this) = k # ks"
  shows "(m_pending_keys (client w this) = k # m_pending_keys (client (take_key this w) this)
          \<and> input (m_ui (client (take_key this w) this)) = input (m_ui (client w this)))
       \<or> (m_pending_keys (client w this) = [] \<and> m_pending_keys (client (take_key this w) this) = []
          \<and> input (m_ui (client w this)) = k # input (m_ui (client (take_key this w) this)))"
  using assms
  by (cases "m_pending_keys (client w this)")
    (auto simp add: take_key_def Let_def set_client_def waiting_keys_def)

lemma drain_keys_effects:
  "waiting_keys (client w this) = keys \<Longrightarrow>
   \<exists>n\<le>length keys.
      handled_keys (m_input_handler (client (snd (drain_keys Normal this w)) this))
        = handled_keys (m_input_handler (client w this)) @ filter forwarded (take n keys)
      \<and> sigint_broadcasts (snd (drain_keys Normal this w))
        = sigint_broadcasts w + length (filter (\<lambda>k. k = ctrl CHR ''c'') (take n keys))
      \<and> hooks_run (m_input_handler (client (snd (drain_keys Normal this w)) this))
        = hooks_run (m_input_handler (client w this))
          @ focus_hooks (context_name (m_input_handler (client w this))) (take n keys)
      \<and> context_name (m_input_handler (client (snd (drain_keys Normal this w)) this))
        = context_name (m_input_handler (client w this))
      \<and> dirty (m_window (client (snd (drain_keys Normal this w)) this))
        = (dirty (m_window (client w this))
           \<or> filter (\<lambda>k. modifiers k = Resize) (take n keys) \<noteq> [])
      \<and> m_pending_keys (client (snd (drain_keys Normal this w)) this)
        = drop n (m_pending_keys (client w this))
      \<and> input (m_ui (client (snd (drain_keys Normal this w)) this))
        = drop (n - length (m_pending_keys (client w this))) (input (m_ui (client w this)))
      \<and> (if fst (drain_keys Normal this w) = None then n = length keys
         else 0 < n \<and> forwarded (keys ! (n - 1)))"
proof (induction keys arbitrary: w)
  case Nil
  then have g: "get_next_key Normal (client w this) = (None, client w this)"
    and empty: "m_pending_keys (client w this) = []" "input (m_ui (client w this)) = []"
    by (simp_all add: get_next_key_contract waiting_keys_def)
  have d: "drain_keys Normal this w = (None, w)"
    using g by (simp add: drain_keys_stop set_client_same)
  show ?case
    by (simp add: d empty focus_hooks_def)
next
  case (Cons k ks)
  let ?w0 = "take_key this w"
  note take = get_next_key_normal_take [OF Cons.prems]
  note shape = take_key_shape [OF Cons.prems]
  obtain xo w1 where dk: "dispatch_key k this ?w0 = (xo, w1)"
    by (cases "dispatch_key k this ?w0")
  have keys1: "m_pending_keys (client w1 this) = m_pending_keys (client ?w0 this)"
      "input (m_ui (client w1 this)) = input (m_ui (client ?w0 this))"
    using same_keys_dispatch_key [of ?w0 this k this] dk by (simp_all add: same_keys_def)
  have wk1: "waiting_keys (client w1 this) = ks"
    using keys1 take(3) by (simp add: waiting_keys_def)
  have h1: "handled_keys (m_input_handler (client w1 this))
      = handled_keys (m_input_handler (client w this)) @ filter forwarded [k]"
    using dispatch_key_handled_keys [of k this ?w0] dk by (simp add: take_key_untouched)
  have e1: "sigint_broadcasts w1
        = sigint_broadcasts w + length (filter (\<lambda>k. k = ctrl CHR ''c'') [k])"
      "hooks_run (m_input_handler (client w1 this))
        = hooks_run (m_input_handler (client w this))
          @ focus_hooks (context_name (m_input_handler (client w this))) [k]"
      "context_name (m_input_handler (client w1 this))
        = context_name (m_input_handler (client w this))"
      "dirty (m_window (client w1 this))
        = (dirty (m_window (client w this)) \<or> modifiers k = Resize)"
    using dispatch_key_effects [of k this ?w0] dk by (simp_all add: take_key_untouched)
  show ?case
  proof (cases xo)
    case None
    have d: "drain_keys Normal this w = drain_keys Normal this w1"
      using drain_keys_step [OF take(1), of w1] dk None by (simp add: take(2))
    from Cons.IH [OF wk1]
    obtain n where n: "n \<le> length ks"
      "handled_keys (m_input_handler (client (snd (drain_keys Normal this w1)) this))
        = handled_keys (m_input_handler (client w1 this)) @ filter forwarded (take n ks)"
      "sigint_broadcasts (snd (drain_keys Normal this w1))
        = sigint_broadcasts w1 + length (filter (\<lambda>k. k = ctrl CHR ''c'') (take n ks))"
      "hooks_run (m_input_handler (client (snd (drain_keys Normal this w1)) this))
        = hooks_run (m_input_handler (client w1 this))
          @ focus_hooks (context_name (m_input_handler (client w1 this))) (take n ks)"
      "context_name (m_input_handler (client (snd (drain_keys Normal this w1)) this))
        = context_name (m_input_handler (client w1 this))"
      "dirty (m_window (client (snd (drain_keys Normal this w1)) this))
        = (dirty (m_window (client w1 this))
           \<or> filter (\<lambda>k. modifiers k = Resize) (take n ks) \<noteq> [])"
      "m_pending_keys (client (snd (drain_keys Normal this w1)) this)
        = drop n (m_pending_keys (client w1 this))"
      "input (m_ui (client (snd (drain_keys Normal this w1)) this))
        = drop (n - length (m_pending_keys (client w1 this))) (input (m_ui (client w1 this)))"
      "if fst (drain_keys Normal this w1) = None then n = length ks
       else 0 < n \<and> forwarded (ks ! (n - 1))"
      by blast
    show ?thesis
    proof (rule exI [of _ "Suc n"], intro conjI)
      show "Suc n \<le> length (k # ks)"
        using n(1) by simp
      show "handled_keys (m_input_handler (client (snd (drain_keys Normal this w)) this))
          = handled_keys (m_input_handler (client w this))
            @ filter forwarded (take (Suc n) (k # ks))"
        using n(2) by (simp add: d h1)
      show "sigint_broadcasts (snd (drain_keys Normal this w))
          = sigint_broadcasts w
            + length (filter (\<lambda>k. k = ctrl CHR ''c'') (take (Suc n) (k # ks)))"
        using n(3) by (simp add: d e1)
      show "hooks_run (m_input_handler (client (snd (drain_keys Normal this w)) this))
          = hooks_run (m_input_handler (client w this))
            @ focus_hooks (context_name (m_input_handler (client w this))) (take (Suc n) (k # ks))"
        using n(4) by (simp add: d e1 focus_hooks_def)
      show "context_name (m_input_handler (client (snd (drain_keys Normal this w)) this))
          = context_name (m_input_handler (client w this))"
        using n(5) by (simp add: d e1)
      show "dirty (m_window (client (snd (drain_keys Normal this w)) this))
          = (dirty (m_window (client w this))
             \<or> filter (\<lambda>k. modifiers k = Resize) (take (Suc n) (k # ks)) \<noteq> [])"
        using n(6) by (auto simp add: d e1)
      show "m_pending_keys (client (snd (drain_keys Normal this w)) this)
          = drop (Suc n) (m_pending_keys (client w this))"
        using n(7) shape by (auto simp add: d keys1)
      show "input (m_ui (client (snd (drain_keys Normal this w)) this))
          = drop (Suc n - length (m_pending_keys (client w this))) (input (m_ui (client w this)))"
        using n(8) shape by (auto simp add: d keys1)
      show "if fst (drain_keys Normal this w) = None then Suc n = length (k # ks)
          else 0 < Suc n \<and> forwarded ((k # ks) ! (Suc n - 1))"
        using n(9) by (auto simp add: d nth_Cons')
    qed
  next
    case (Some e)
    have d: "drain_keys Normal this w = (Some e, w1)"
      using drain_keys_raise [OF take(1), of e w1] dk Some by (simp add: take(2))
    have fk: "forwarded k"
      using dk Some by (auto dest: dispatch_key_raises_forwarded)
    show ?thesis
      using shape
      by (intro exI [of _ 1]) (auto simp add: d h1 e1 keys1 fk)
  qed
qed

lemma dispatch_key_no_handler:
  assumes "next_key (m_input_handler (client w this)) = None"
  shows "fst (dispatch_key k this w)
      = (if forwarded k then engine_raises (m_input_handler (client w this)) k else None)"
    and "next_key (m_input_handler (client (snd (dispatch_key k this w)) this)) = None"
    and "engine_raises (m_input_handler (client (snd (dispatch_key k this w)) this))
          = engine_raises (m_input_handler (client w this))"
  using assms
  by (simp_all add: dispatch_key_def handle_key_def forwarded_def Let_def set_client_def
        killpg_sigint_def run_hook_def force_redraw_def)

lemma drain_keys_stops_at_raise:
  "waiting_keys (client w this) = keys \<Longrightarrow>
   next_key (m_input_handler (client w this)) = None \<Longrightarrow>
   fst (drain_keys Normal this w) = raised (engine_raises (m_input_handler (client w this))) keys
   \<and> waiting_keys (client (snd (drain_keys Normal this w)) this)
       = drop (stop_at (engine_raises (m_input_handler (client w this))) keys) keys"
proof (induction keys arbitrary: w)
  case Nil
  then have "get_next_key Normal (client w this) = (None, client w this)"
    by (simp add: get_next_key_contract waiting_keys_def)
  then show ?case
    using Nil.prems(1) by (simp add: drain_keys_stop set_client_same)
next
  case (Cons k ks)
  let ?w0 = "take_key this w"
  let ?r = "engine_raises (m_input_handler (client w this))"
  note take = get_next_key_normal_take [OF Cons.prems(1)]
  have nk0: "next_key (m_input_handler (client ?w0 this)) = None"
    using Cons.prems(2) by (simp add: take_key_untouched)
  obtain xo w1 where dk: "dispatch_key k this ?w0 = (xo, w1)"
    by (cases "dispatch_key k this ?w0")
  have xo: "xo = (if forwarded k then ?r k else None)"
    and nk1: "next_key (m_input_handler (client w1 this)) = None"
    and r1: "engine_raises (m_input_handler (client w1 this)) = ?r"
    using dispatch_key_no_handler [OF nk0, of k] dk by (simp_all add: take_key_untouched)
  have wk1: "waiting_keys (client w1 this) = ks"
    using same_keys_dispatch_key [of ?w0 this k this] dk take(3)
    by (simp add: same_keys_waiting)
  show ?case
  proof (cases xo)
    case None
    have d: "drain_keys Normal this w = drain_keys Normal this w1"
      using drain_keys_step [OF take(1), of w1] dk None by (simp add: take(2))
    have stop: "\<not> (forwarded k \<and> ?r k \<noteq> None)"
      using xo None by auto
    show ?thesis
      using Cons.IH [OF wk1 nk1] stop by (auto simp add: d r1)
  next
    case (Some e)
    have d: "drain_keys Normal this w = (Some e, w1)"
      using drain_keys_raise [OF take(1), of e w1] dk Some by (simp add: take(2))
    have stop: "forwarded k \<and> ?r k = Some e"
      using xo Some by (auto split: if_splits)
    show ?thesis
      using stop by (simp add: d wk1)
  qed
qed

lemma catch_effects:
  "sigint_broadcasts (snd (catch_client_removed this (catch_runtime_error this r)))
     = sigint_broadcasts (snd r)"
  "m_window (client (snd (catch_client_removed this (catch_runtime_error this r))) this)
     = m_window (client (snd r) this)"
  "hooks_run (m_input_handler (client (snd (catch_client_removed this
       (catch_runtime_error this r))) this))
     = hooks_run (m_input_handler (client (snd r) this))
       @ (case fst r of Some (runtime_error what) \<Rightarrow> [(''RuntimeError'', what)] | _ \<Rightarrow> [])"
  by (cases r; cases "fst r"; cases "the (fst r)";
      simp add: catch_client_removed_def catch_runtime_error_def remove_client_def
        set_client_def print_status_def run_hook_def Let_def)+

text \<open>
  Claim C7, as amended. get\_next\_key returns and removes the front of the queue whenever
  the queue is not empty, whatever the mode; with an empty queue it takes the oldest
  ready key of the input source when the mode is not \<^verbatim>\<open>Pending\<close> and one is ready; otherwise
  it returns no key. The loop of a \<^verbatim>\<open>Normal\<close> dispatch is the dispatch of the specification
  over the queued keys followed by the ready keys: each key is taken away and routed, the
  interrupt key to the signal, a focus event to its hook, a resize event to the forced
  redraw and any other key to \<^verbatim>\<open>handle_key\<close>, and the loop ends when no key remains or with
  the exception that \<^verbatim>\<open>handle_key\<close> raised. After the dispatch, for the number \<^verbatim>\<open>n\<close> of keys
  taken: \<^verbatim>\<open>handle_key\<close> was given, in order, the keys among the first \<^verbatim>\<open>n\<close> that are not
  the interrupt key, a focus event or a resize event; one interrupt signal was sent for
  each interrupt key among them; the focus hooks of the focus events among them ran in
  order, followed by the \<^verbatim>\<open>RuntimeError\<close> hook when the loop ended with a runtime error; the
  window is marked for a redraw if it was or a resize event is among them; the keys not
  taken are where they were. If the loop ends without an exception every key was taken;
  if it ends by an exception, the last key taken was one given to \<^verbatim>\<open>handle_key\<close>. With no
  one-shot handler installed, the loop ends with the exception that the engine raises on
  the first forwarded key on which it raises, that key being the last one taken, and
  without an exception when there is no such key.
\<close>

theorem dispatch_order:
  "get_next_key mode c =
     (if m_pending_keys c \<noteq> []
      then (Some (hd (m_pending_keys c)), c\<lparr>m_pending_keys := tl (m_pending_keys c)\<rparr>)
      else if mode \<noteq> Pending \<and> input (m_ui c) \<noteq> []
      then (Some (hd (input (m_ui c))), c\<lparr>m_ui := (m_ui c)\<lparr>input := tl (input (m_ui c))\<rparr>\<rparr>)
      else (None, c))
   \<and> drain_keys Normal this w
       = spec_dispatch (m_pending_keys (client w this) @ input (m_ui (client w this))) this w
   \<and> (\<exists>n\<le>length (m_pending_keys (client w this) @ input (m_ui (client w this))).
        handled_keys (m_input_handler (client (snd (handle_available_input Normal this w)) this))
          = handled_keys (m_input_handler (client w this))
            @ filter forwarded
                (take n (m_pending_keys (client w this) @ input (m_ui (client w this))))
        \<and> sigint_broadcasts (snd (handle_available_input Normal this w))
          = sigint_broadcasts w
            + length (filter (\<lambda>k. k = ctrl CHR ''c'')
                (take n (m_pending_keys (client w this) @ input (m_ui (client w this)))))
        \<and> hooks_run (m_input_handler (client (snd (handle_available_input Normal this w)) this))
          = hooks_run (m_input_handler (client w this))
            @ focus_hooks (context_name (m_input_handler (client w this)))
                (take n (m_pending_keys (client w this) @ input (m_ui (client w this))))
            @ (case fst (drain_keys Normal this w) of
                 Some (runtime_error what) \<Rightarrow> [(''RuntimeError'', what)]
               | _ \<Rightarrow> [])
        \<and> dirty (m_window (client (snd (handle_available_input Normal this w)) this))
          = (dirty (m_window (client w this))
             \<or> filter (\<lambda>k. modifiers k = Resize)
                 (take n (m_pending_keys (client w this) @ input (m_ui (client w this)))) \<noteq> [])
        \<and> m_pending_keys (client (snd (handle_available_input Normal this w)) this)
          = drop n (m_pending_keys (client w this))
        \<and> input (m_ui (client (snd (handle_available_input Normal this w)) this))
          = drop (n - length (m_pending_keys (client w this))) (input (m_ui (client w this)))
        \<and> (if fst (drain_keys Normal this w) = None
           then n = length (m_pending_keys (client w this) @ input (m_ui (client w this)))
           else 0 < n
              \<and> forwarded ((m_pending_keys (client w this) @ input (m_ui (client w this)))
                             ! (n - 1))))
   \<and> (next_key (m_input_handler (client w this)) = None \<longrightarrow>
        fst (drain_keys Normal this w)
          = raised (engine_raises (m_input_handler (client w this)))
              (m_pending_keys (client w this) @ input (m_ui (client w this)))
        \<and> m_pending_keys (client (snd (handle_available_input Normal this w)) this)
            @ input (m_ui (client (snd (handle_available_input Normal this w)) this))
          = drop (stop_at (engine_raises (m_input_handler (client w this)))
                    (m_pending_keys (client w this) @ input (m_ui (client w this))))
              (m_pending_keys (client w this) @ input (m_ui (client w this))))"
proof (intro conjI impI)
  show "get_next_key mode c =
     (if m_pending_keys c \<noteq> []
      then (Some (hd (m_pending_keys c)), c\<lparr>m_pending_keys := tl (m_pending_keys c)\<rparr>)
      else if mode \<noteq> Pending \<and> input (m_ui c) \<noteq> []
      then (Some (hd (input (m_ui c))), c\<lparr>m_ui := (m_ui c)\<lparr>input := tl (input (m_ui c))\<rparr>\<rparr>)
      else (None, c))"
    by (rule get_next_key_contract)
next
  show "drain_keys Normal this w
       = spec_dispatch (m_pending_keys (client w this) @ input (m_ui (client w this))) this w"
    using drain_keys_spec_dispatch [where w = w and this = this, OF refl] by (simp add: waiting_keys_def)
next
  have after:
    "handled_keys (m_input_handler (client (snd (handle_available_input Normal this w)) this))
       = handled_keys (m_input_handler (client (snd (drain_keys Normal this w)) this))"
    "sigint_broadcasts (snd (handle_available_input Normal this w))
       = sigint_broadcasts (snd (drain_keys Normal this w))"
    "hooks_run (m_input_handler (client (snd (handle_available_input Normal this w)) this))
       = hooks_run (m_input_handler (client (snd (drain_keys Normal this w)) this))
         @ (case fst (drain_keys Normal this w) of
              Some (runtime_error what) \<Rightarrow> [(''RuntimeError'', what)]
            | _ \<Rightarrow> [])"
    "m_window (client (snd (handle_available_input Normal this w)) this)
       = m_window (client (snd (drain_keys Normal this w)) this)"
    "m_pending_keys (client (snd (handle_available_input Normal this w)) this)
       = m_pending_keys (client (snd (drain_keys Normal this w)) this)"
    "input (m_ui (client (snd (handle_available_input Normal this w)) this))
       = input (m_ui (client (snd (drain_keys Normal this w)) this))"
    by (simp_all add: handle_available_input_def catch_frame catch_effects)
  show "\<exists>n\<le>length (m_pending_keys (client w this) @ input (m_ui (client w this))).
        handled_keys (m_input_handler (client (snd (handle_available_input Normal this w)) this))
          = handled_keys (m_input_handler (client w this))
            @ filter forwarded
                (take n (m_pending_keys (client w this) @ input (m_ui (client w this))))
        \<and> sigint_broadcasts (snd (handle_available_input Normal this w))
          = sigint_broadcasts w
            + length (filter (\<lambda>k. k = ctrl CHR ''c'')
                (take n (m_pending_keys (client w this) @ input (m_ui (client w this)))))
        \<and> hooks_run (m_input_handler (client (snd (handle_available_input Normal this w)) this))
          = hooks_run (m_input_handler (client w this))
            @ focus_hooks (context_name (m_input_handler (client w this)))
                (take n (m_pending_keys (client w this) @ input (m_ui (client w this))))
            @ (case fst (drain_keys Normal this w) of
                 Some (runtime_error what) \<Rightarrow> [(''RuntimeError'', what)]
               | _ \<Rightarrow> [])
        \<and> dirty (m_window (client (snd (handle_available_input Normal this w)) this))
          = (dirty (m_window (client w this))
             \<or> filter (\<lambda>k. modifiers k = Resize)
                 (take n (m_pending_keys (client w this) @ input (m_ui (client w this)))) \<noteq> [])
        \<and> m_pending_keys (client (snd (handle_available_input Normal this w)) this)
          = drop n (m_pending_keys (client w this))
        \<and> input (m_ui (client (snd (handle_available_input Normal this w)) this))
          = drop (n - length (m_pending_keys (client w this))) (input (m_ui (client w this)))
        \<and> (if fst (drain_keys Normal this w) = None
           then n = length (m_pending_keys (client w this) @ input (m_ui (client w this)))
           else 0 < n
              \<and> forwarded ((m_pending_keys (client w this) @ input (m_ui (client w this)))
                             ! (n - 1)))"
    unfolding after
    using drain_keys_effects [where w = w and this = this, OF refl, unfolded waiting_keys_def]
    by (elim exE conjE, intro exI conjI) (assumption | simp only: append_assoc)+
next
  assume nk: "next_key (m_input_handler (client w this)) = None"
  show "fst (drain_keys Normal this w)
          = raised (engine_raises (m_input_handler (client w this)))
              (m_pending_keys (client w this) @ input (m_ui (client w this)))"
    using drain_keys_stops_at_raise [OF refl nk] by (simp add: waiting_keys_def)
  show "m_pending_keys (client (snd (handle_available_input Normal this w)) this)
            @ input (m_ui (client (snd (handle_available_input Normal this w)) this))
          = drop (stop_at (engine_raises (m_input_handler (client w this)))
                    (m_pending_keys (client w this) @ input (m_ui (client w this))))
              (m_pending_keys (client w this) @ input (m_ui (client w this)))"
    using drain_keys_stops_at_raise [OF refl nk]
    by (simp add: waiting_keys_def handle_available_input_def catch_frame)
qed

lemma dispatch_key_quiet:
  assumes "next_key (m_input_handler (client w this)) = None"
    and "engine_raises (m_input_handler (client w this)) k = None"
  shows "fst (dispatch_key k this w) = None"
    and "next_key (m_input_handler (client (snd (dispatch_key k this w)) this)) = None"
    and "engine_raises (m_input_handler (client (snd (dispatch_key k this w)) this))
          = engine_raises (m_input_handler (client w this))"
  using assms
  by (simp_all add: dispatch_key_def handle_key_def Let_def set_client_def killpg_sigint_def
        run_hook_def force_redraw_def)

lemma get_next_key_input_handler:
  "m_input_handler (snd (get_next_key mode c)) = m_input_handler c"
  by (simp add: get_next_key_contract)

lemma drain_keys_quiet:
  assumes "next_key (m_input_handler (client w this)) = None"
    and "\<And>k. engine_raises (m_input_handler (client w this)) k = None"
  shows "fst (drain_keys mode this w) = None"
  using assms
proof (induction mode this w rule: drain_keys.induct)
  case (1 mode this w)
  obtain x c where g: "get_next_key mode (client w this) = (x, c)"
    by (cases "get_next_key mode (client w this)")
  have ih: "m_input_handler c = m_input_handler (client w this)"
    using get_next_key_input_handler [of mode "client w this"] g by simp
  show ?case
  proof (cases x)
    case None
    then show ?thesis
      using g by (simp add: drain_keys_stop)
  next
    case (Some k)
    let ?w0 = "set_client this c w"
    obtain xo w1 where dk: "dispatch_key k this ?w0 = (xo, w1)"
      by (cases "dispatch_key k this ?w0")
    have pre: "next_key (m_input_handler (client ?w0 this)) = None"
        "engine_raises (m_input_handler (client ?w0 this)) k = None"
      using "1.prems" by (simp_all add: client_set_client ih)
    have xo: "xo = None"
      using dispatch_key_quiet(1) [OF pre] dk by simp
    have post: "next_key (m_input_handler (client w1 this)) = None"
        "engine_raises (m_input_handler (client w1 this)) k' = None" for k'
      using dispatch_key_quiet(2,3) [OF pre] dk "1.prems"(2)
      by (simp_all add: client_set_client ih)
    have "drain_keys mode this w = drain_keys mode this w1"
      using g Some dk xo by (simp add: drain_keys_step)
    then show ?thesis
      using "1.IH" [OF g [symmetric] Some dk [symmetric] xo post] by simp
  qed
qed

lemma demo_keys_quiet:
  "next_key (m_input_handler (client (demo_keys queued ready demo_world) 0)) = None"
  "engine_raises (m_input_handler (client (demo_keys queued ready demo_world) 0)) k = None"
  "handled_keys (m_input_handler (client (demo_keys queued ready demo_world) 0)) = []"
  by (simp_all add: demo_keys_facts) (simp_all add: demo_defs)

lemma forwarded_demo:
  "forwarded (plain c)" "\<not> forwarded (named FocusIn)"
  by (simp_all add: forwarded_def plain_def named_def ctrl_def)

lemma demo_dispatch_facts:
  "hooks_run (m_input_handler (client (demo_keys queued ready demo_world) 0)) = []"
  "context_name (m_input_handler (client (demo_keys queued ready demo_world) 0)) = ''client0''"
  "engine_raises (m_input_handler (client (demo_keys queued ready demo_world) 0)) = (\<lambda>k. None)"
  "sigint_broadcasts (demo_keys queued ready demo_world) = 0"
  by (simp_all add: demo_keys_facts) (simp_all add: demo_defs)

lemma demo_raising_facts:
  "next_key (m_input_handler (client (demo_keys queued ready demo_raising) 0)) = None"
  "handled_keys (m_input_handler (client (demo_keys queued ready demo_raising) 0)) = []"
  "hooks_run (m_input_handler (client (demo_keys queued ready demo_raising) 0)) = []"
  "context_name (m_input_handler (client (demo_keys queued ready demo_raising) 0)) = ''client0''"
  "engine_raises (m_input_handler (client (demo_keys queued ready demo_raising) 0))
     = (\<lambda>k. if k = plain CHR ''a'' then Some (runtime_error ''no such command'') else None)"
  by (simp_all add: demo_keys_facts) (simp_all add: demo_raising_def set_client_def demo_defs)

lemma demo_key_routes:
  "forwarded (plain c)" "\<not> forwarded (named FocusIn)" "\<not> forwarded (ctrl CHR ''c'')"
  "plain c \<noteq> ctrl CHR ''c''" "named FocusIn \<noteq> ctrl CHR ''c''"
  "plain c \<noteq> named FocusIn" "plain c \<noteq> named FocusOut"
  "ctrl CHR ''c'' \<noteq> named FocusIn" "ctrl CHR ''c'' \<noteq> named FocusOut"
  by (simp_all add: forwarded_def plain_def named_def ctrl_def)

theorem dispatch_order_witness:
  "handled_keys (m_input_handler (client (snd (handle_available_input Normal 0
       (demo_keys [plain CHR ''a'', named FocusIn, plain CHR ''b'']
          [ctrl CHR ''c'', plain CHR ''c''] demo_world))) 0))
     = [plain CHR ''a'', plain CHR ''b'', plain CHR ''c'']
   \<and> sigint_broadcasts (snd (handle_available_input Normal 0
       (demo_keys [plain CHR ''a'', named FocusIn, plain CHR ''b'']
          [ctrl CHR ''c'', plain CHR ''c''] demo_world))) = 1
   \<and> hooks_run (m_input_handler (client (snd (handle_available_input Normal 0
       (demo_keys [plain CHR ''a'', named FocusIn, plain CHR ''b'']
          [ctrl CHR ''c'', plain CHR ''c''] demo_world))) 0))
     = [(''FocusIn'', ''client0'')]
   \<and> m_pending_keys (client (snd (handle_available_input Normal 0
       (demo_keys [plain CHR ''a'', named FocusIn, plain CHR ''b'']
          [ctrl CHR ''c'', plain CHR ''c''] demo_world))) 0) = []
   \<and> input (m_ui (client (snd (handle_available_input Normal 0
       (demo_keys [plain CHR ''a'', named FocusIn, plain CHR ''b'']
          [ctrl CHR ''c'', plain CHR ''c''] demo_world))) 0)) = []
   \<and> fst (drain_keys Normal 0
       (demo_keys [plain CHR ''a'', plain CHR ''b''] [plain CHR ''c''] demo_raising))
     = Some (runtime_error ''no such command'')
   \<and> handled_keys (m_input_handler (client (snd (handle_available_input Normal 0
       (demo_keys [plain CHR ''a'', plain CHR ''b''] [plain CHR ''c''] demo_raising))) 0))
     = [plain CHR ''a'']
   \<and> hooks_run (m_input_handler (client (snd (handle_available_input Normal 0
       (demo_keys [plain CHR ''a'', plain CHR ''b''] [plain CHR ''c''] demo_raising))) 0))
     = [(''RuntimeError'', ''no such command'')]
   \<and> m_pending_keys (client (snd (handle_available_input Normal 0
       (demo_keys [plain CHR ''a'', plain CHR ''b''] [plain CHR ''c''] demo_raising))) 0)
     = [plain CHR ''b'']
   \<and> input (m_ui (client (snd (handle_available_input Normal 0
       (demo_keys [plain CHR ''a'', plain CHR ''b''] [plain CHR ''c''] demo_raising))) 0))
     = [plain CHR ''c'']"
proof -
  define w where
    "w = demo_keys [plain CHR ''a'', named FocusIn, plain CHR ''b'']
           [ctrl CHR ''c'', plain CHR ''c''] demo_world"
  have facts: "m_pending_keys (client w 0) = [plain CHR ''a'', named FocusIn, plain CHR ''b'']"
    "input (m_ui (client w 0)) = [ctrl CHR ''c'', plain CHR ''c'']"
    "handled_keys (m_input_handler (client w 0)) = []"
    "next_key (m_input_handler (client w 0)) = None"
    "hooks_run (m_input_handler (client w 0)) = []"
    "context_name (m_input_handler (client w 0)) = ''client0''"
    "engine_raises (m_input_handler (client w 0)) = (\<lambda>k. None)"
    "sigint_broadcasts w = 0"
    unfolding w_def by (simp_all add: demo_keys_facts(1,2) demo_keys_quiet demo_dispatch_facts)
  note t = dispatch_order [where w = w and this = 0 and mode = Normal and c = "client w 0"]
  have none: "fst (drain_keys Normal 0 w) = None"
    using t [THEN conjunct2, THEN conjunct2, THEN conjunct2] by (simp add: facts)
  from t [THEN conjunct2, THEN conjunct2, THEN conjunct1]
  obtain n where
    "handled_keys (m_input_handler (client (snd (handle_available_input Normal 0 w)) 0))
       = filter forwarded (take n [plain CHR ''a'', named FocusIn, plain CHR ''b'',
           ctrl CHR ''c'', plain CHR ''c''])"
    "sigint_broadcasts (snd (handle_available_input Normal 0 w))
       = length (filter (\<lambda>k. k = ctrl CHR ''c'') (take n [plain CHR ''a'', named FocusIn,
           plain CHR ''b'', ctrl CHR ''c'', plain CHR ''c'']))"
    "hooks_run (m_input_handler (client (snd (handle_available_input Normal 0 w)) 0))
       = focus_hooks ''client0'' (take n [plain CHR ''a'', named FocusIn, plain CHR ''b'',
           ctrl CHR ''c'', plain CHR ''c''])"
    "m_pending_keys (client (snd (handle_available_input Normal 0 w)) 0)
       = drop n [plain CHR ''a'', named FocusIn, plain CHR ''b'']"
    "input (m_ui (client (snd (handle_available_input Normal 0 w)) 0))
       = drop (n - 3) [ctrl CHR ''c'', plain CHR ''c'']"
    "n = 5"
    by (auto simp add: facts none)
  then have quiet:
    "handled_keys (m_input_handler (client (snd (handle_available_input Normal 0 w)) 0))
       = [plain CHR ''a'', plain CHR ''b'', plain CHR ''c'']
     \<and> sigint_broadcasts (snd (handle_available_input Normal 0 w)) = 1
     \<and> hooks_run (m_input_handler (client (snd (handle_available_input Normal 0 w)) 0))
       = [(''FocusIn'', ''client0'')]
     \<and> m_pending_keys (client (snd (handle_available_input Normal 0 w)) 0) = []
     \<and> input (m_ui (client (snd (handle_available_input Normal 0 w)) 0)) = []"
    by (simp add: demo_key_routes focus_hooks_def)
  define v where "v = demo_keys [plain CHR ''a'', plain CHR ''b''] [plain CHR ''c''] demo_raising"
  have vfacts: "m_pending_keys (client v 0) = [plain CHR ''a'', plain CHR ''b'']"
    "input (m_ui (client v 0)) = [plain CHR ''c'']"
    "handled_keys (m_input_handler (client v 0)) = []"
    "next_key (m_input_handler (client v 0)) = None"
    "hooks_run (m_input_handler (client v 0)) = []"
    "context_name (m_input_handler (client v 0)) = ''client0''"
    "engine_raises (m_input_handler (client v 0))
       = (\<lambda>k. if k = plain CHR ''a'' then Some (runtime_error ''no such command'') else None)"
    unfolding v_def by (simp_all add: demo_keys_facts(1,2) demo_raising_facts)
  note u = dispatch_order [where w = v and this = 0 and mode = Normal and c = "client v 0"]
  have stop: "fst (drain_keys Normal 0 v) = Some (runtime_error ''no such command'')"
    "m_pending_keys (client (snd (handle_available_input Normal 0 v)) 0)
       @ input (m_ui (client (snd (handle_available_input Normal 0 v)) 0))
     = [plain CHR ''b'', plain CHR ''c'']"
    using u [THEN conjunct2, THEN conjunct2, THEN conjunct2]
    by (simp_all add: vfacts demo_key_routes)
  have "\<exists>m. handled_keys (m_input_handler (client (snd (handle_available_input Normal 0 v)) 0))
       = filter forwarded (take m [plain CHR ''a'', plain CHR ''b'', plain CHR ''c''])
     \<and> hooks_run (m_input_handler (client (snd (handle_available_input Normal 0 v)) 0))
       = focus_hooks ''client0'' (take m [plain CHR ''a'', plain CHR ''b'', plain CHR ''c''])
         @ [(''RuntimeError'', ''no such command'')]
     \<and> m_pending_keys (client (snd (handle_available_input Normal 0 v)) 0)
       = drop m [plain CHR ''a'', plain CHR ''b'']
     \<and> input (m_ui (client (snd (handle_available_input Normal 0 v)) 0))
       = drop (m - Suc (Suc 0)) [plain CHR ''c'']
     \<and> m \<le> Suc (Suc (Suc 0)) \<and> 0 < m"
    using u [THEN conjunct2, THEN conjunct2, THEN conjunct1]
    by (simp add: vfacts stop(1)) blast
  then obtain m where m:
    "handled_keys (m_input_handler (client (snd (handle_available_input Normal 0 v)) 0))
       = filter forwarded (take m [plain CHR ''a'', plain CHR ''b'', plain CHR ''c''])"
    "hooks_run (m_input_handler (client (snd (handle_available_input Normal 0 v)) 0))
       = focus_hooks ''client0'' (take m [plain CHR ''a'', plain CHR ''b'', plain CHR ''c''])
         @ [(''RuntimeError'', ''no such command'')]"
    "m_pending_keys (client (snd (handle_available_input Normal 0 v)) 0)
       = drop m [plain CHR ''a'', plain CHR ''b'']"
    "input (m_ui (client (snd (handle_available_input Normal 0 v)) 0))
       = drop (m - Suc (Suc 0)) [plain CHR ''c'']"
    "m \<le> Suc (Suc (Suc 0))" "0 < m"
    by blast
  have "length (drop m [plain CHR ''a'', plain CHR ''b''])
      + length (drop (m - Suc (Suc 0)) [plain CHR ''c'']) = 2"
    using arg_cong [OF stop(2), of length] by (simp add: m(3,4))
  then have "m = 1"
    using m(5,6) by simp
  then have raising:
    "handled_keys (m_input_handler (client (snd (handle_available_input Normal 0 v)) 0))
       = [plain CHR ''a'']
     \<and> hooks_run (m_input_handler (client (snd (handle_available_input Normal 0 v)) 0))
       = [(''RuntimeError'', ''no such command'')]
     \<and> m_pending_keys (client (snd (handle_available_input Normal 0 v)) 0) = [plain CHR ''b'']
     \<and> input (m_ui (client (snd (handle_available_input Normal 0 v)) 0)) = [plain CHR ''c'']"
    using m(1-4) by (simp add: demo_key_routes focus_hooks_def)
  show ?thesis
    using quiet stop(1) raising unfolding w_def v_def by simp
qed

text \<open>
  Claim C7 as it was stated fails twice. A queued focus event is taken from the queue
  and never given to \<^verbatim>\<open>handle_key\<close>; and when the engine raises on the first of two queued
  keys, the dispatch ends with the second still in the queue.
\<close>

theorem dispatch_to_engine_counterexample:
  "m_pending_keys (client (demo_keys [named FocusIn] [] demo_world) 0) = [named FocusIn]
   \<and> m_pending_keys (client (snd (handle_available_input Normal 0
         (demo_keys [named FocusIn] [] demo_world))) 0) = []
   \<and> handled_keys (m_input_handler (client (snd (handle_available_input Normal 0
         (demo_keys [named FocusIn] [] demo_world))) 0)) = []
   \<and> m_pending_keys (client (snd (handle_available_input Normal 0
         (demo_keys [plain CHR ''a'', plain CHR ''b''] [] demo_raising))) 0) = [plain CHR ''b'']
   \<and> handled_keys (m_input_handler (client (snd (handle_available_input Normal 0
         (demo_keys [plain CHR ''a'', plain CHR ''b''] [] demo_raising))) 0)) = [plain CHR ''a'']"
proof -
  define w where "w = demo_keys [named FocusIn] [] demo_world"
  have quiet: "fst (drain_keys Normal 0 w) = None"
    unfolding w_def by (rule drain_keys_quiet) (simp_all add: demo_keys_quiet)
  have keys: "m_pending_keys (client w 0) = [named FocusIn]" "input (m_ui (client w 0)) = []"
    "handled_keys (m_input_handler (client w 0)) = []"
    unfolding w_def by (simp_all add: demo_keys_facts) (simp add: demo_defs)
  from drain_keys_normal [of w 0]
  obtain n where
    "handled_keys (m_input_handler (client (snd (drain_keys Normal 0 w)) 0))
       = filter forwarded (take n [named FocusIn])"
    "m_pending_keys (client (snd (drain_keys Normal 0 w)) 0) = drop n [named FocusIn]"
    "n = 1"
    by (auto simp add: keys quiet waiting_keys_def)
  then have focus: "m_pending_keys (client (snd (handle_available_input Normal 0 w)) 0) = []
      \<and> handled_keys (m_input_handler (client (snd (handle_available_input Normal 0 w)) 0)) = []"
    by (simp add: handle_available_input_def catch_frame forwarded_demo)
  define v where "v = demo_keys [plain CHR ''a'', plain CHR ''b''] [] demo_raising"
  define c where "c = (client v 0)\<lparr>m_pending_keys := [plain CHR ''b'']\<rparr>"
  have g: "get_next_key Normal (client v 0) = (Some (plain CHR ''a''), c)"
    unfolding v_def c_def by (simp add: get_next_key_contract demo_keys_facts)
  have ih: "next_key (m_input_handler c) = None"
      "engine_raises (m_input_handler c) (plain CHR ''a'') = Some (runtime_error ''no such command'')"
      "handled_keys (m_input_handler c) = []"
    unfolding c_def v_def
    by (simp_all add: demo_keys_facts) (simp_all add: demo_raising_def set_client_def demo_defs)
  obtain xo w1 where dk: "dispatch_key (plain CHR ''a'') 0 (set_client 0 c v) = (xo, w1)"
    by (cases "dispatch_key (plain CHR ''a'') 0 (set_client 0 c v)")
  have "dispatch_key (plain CHR ''a'') 0 (set_client 0 c v)
      = handle_key (plain CHR ''a'') 0 (set_client 0 c v)"
    using forwarded_demo(1) [of "CHR ''a''"] by (simp add: dispatch_key_def forwarded_def Let_def)
  then have xo: "xo = Some (runtime_error ''no such command'')"
    using dk by (simp add: handle_key_def Let_def client_set_client ih)
  have w1: "m_pending_keys (client w1 0) = [plain CHR ''b'']"
      "handled_keys (m_input_handler (client w1 0)) = [plain CHR ''a'']"
    using same_keys_dispatch_key [of "set_client 0 c v" 0 "plain CHR ''a''" 0]
      dispatch_key_handled_keys [of "plain CHR ''a''" 0 "set_client 0 c v"] dk
    by (simp_all add: same_keys_def client_set_client ih forwarded_demo) (simp add: c_def)
  have raise: "m_pending_keys (client (snd (handle_available_input Normal 0 v)) 0) = [plain CHR ''b'']
      \<and> handled_keys (m_input_handler (client (snd (handle_available_input Normal 0 v)) 0))
          = [plain CHR ''a'']"
    using drain_keys_raise [OF g dk [unfolded xo]]
    by (simp add: handle_available_input_def catch_frame w1)
  show ?thesis
    using focus raise keys(1) unfolding w_def v_def by simp
qed

section \<open>Resolution of the dialog across clients\<close>

text \<open>
  On a decline key, and on a confirm key when the reload operation returns, the loop
  over the registry is reached: every registered client that shows the same buffer with
  the dialog open has its flag cleared, \<^verbatim>\<open>info_hide\<close> called and its one-shot handler
  removed.
\<close>

lemma on_buffer_reload_key_resolves:
  assumes "decline_key k \<or> (confirm_key k
      \<and> reload_error w (name (buffers w (context_buffer (client w this)))) = None)"
    and "j \<in> set (client_manager w)"
    and "context_buffer (client w j) = context_buffer (client w this)"
    and "m_buffer_reload_dialog_opened (client w j)"
  shows "fst (on_buffer_reload_key k this w) = None"
    and "\<not> m_buffer_reload_dialog_opened (client (snd (on_buffer_reload_key k this w)) j)"
    and "calls (m_ui (client (snd (on_buffer_reload_key k this w)) j))
          = calls (m_ui (client w j)) @ [ui_info_hide]"
    and "next_key (m_input_handler (client (snd (on_buffer_reload_key k this w)) j)) = None"
proof -
  consider (decline) "decline_key k"
    | (ok) "confirm_key k"
        "reload_error w (name (buffers w (context_buffer (client w this)))) = None"
    using assms(1) by auto
  then have "fst (on_buffer_reload_key k this w) = None
    \<and> \<not> m_buffer_reload_dialog_opened (client (snd (on_buffer_reload_key k this w)) j)
    \<and> calls (m_ui (client (snd (on_buffer_reload_key k this w)) j))
          = calls (m_ui (client w j)) @ [ui_info_hide]
    \<and> next_key (m_input_handler (client (snd (on_buffer_reload_key k this w)) j)) = None"
  proof cases
    case decline
    then show ?thesis
      using assms(2-4)
      by (auto simp add: on_buffer_reload_key_decline Let_def closed_where_def
            dialog_closed_simps context_buffer_def)
  next
    case ok
    then show ?thesis
      using assms(2-4)
      by (auto simp add: on_buffer_reload_key_confirm_ok Let_def closed_where_def
            dialog_closed_simps context_buffer_def)
  qed
  then show "fst (on_buffer_reload_key k this w) = None"
    and "\<not> m_buffer_reload_dialog_opened (client (snd (on_buffer_reload_key k this w)) j)"
    and "calls (m_ui (client (snd (on_buffer_reload_key k this w)) j))
          = calls (m_ui (client w j)) @ [ui_info_hide]"
    and "next_key (m_input_handler (client (snd (on_buffer_reload_key k this w)) j)) = None"
    by simp_all
qed

text \<open>
  Claim C3 fails on the code when the reload operation raises. reload\_buffer has no
  handler of its own, so the \<^verbatim>\<open>runtime_error\<close> leaves on\_buffer\_reload\_key before the loop
  over the registry and is caught in handle\_available\_input, which prints it. The
  confirm key was given to the one-shot handler, which is thereby used up, yet the
  dialog flag is still set on both clients and no \<^verbatim>\<open>info_hide\<close> was called.
\<close>

theorem failed_reload_leaves_dialogs_open:
  "m_buffer_reload_dialog_opened (client demo_unreadable 0)
   \<and> m_buffer_reload_dialog_opened (client demo_unreadable 1)
   \<and> context_buffer (client demo_unreadable 1) = context_buffer (client demo_unreadable 0)
   \<and> client_manager demo_unreadable = [0, 1]
   \<and> next_key (m_input_handler (client demo_unreadable 0)) = Some call_on_buffer_reload_key
   \<and> fst (handle_available_input Normal 0 demo_unreadable) = None
   \<and> handled_keys (m_input_handler
        (client (snd (handle_available_input Normal 0 demo_unreadable)) 0)) = [plain CHR ''y'']
   \<and> m_buffer_reload_dialog_opened (client (snd (handle_available_input Normal 0 demo_unreadable)) 0)
   \<and> m_buffer_reload_dialog_opened (client (snd (handle_available_input Normal 0 demo_unreadable)) 1)
   \<and> next_key (m_input_handler
        (client (snd (handle_available_input Normal 0 demo_unreadable)) 0)) = None
   \<and> ui_info_hide \<notin> set (calls (m_ui
        (client (snd (handle_available_input Normal 0 demo_unreadable)) 0)))
   \<and> m_pending_status_line (client (snd (handle_available_input Normal 0 demo_unreadable)) 0)
        = [atom ''cannot open file'' (RegisteredFace ''Error'')]"
proof -
  define P where "P = prompting demo_buffer demo_client"
  have before: "client demo_unreadable 0 = P\<lparr>m_ui := (m_ui P)\<lparr>input := [plain CHR ''y'']\<rparr>,
        m_pending_keys := []\<rparr>"
      "client demo_unreadable 1 = P"
      "client_manager demo_unreadable = [0, 1]"
      "reload_error demo_unreadable f = Some ''cannot open file''" for f
    by (simp_all add: demo_unreadable_def demo_keys_def set_client_def demo_asked_facts
          demo_asked_facts(2) [unfolded One_nat_def] P_def)
  have P: "m_buffer_reload_dialog_opened P" "buffer (m_window P) = 0"
      "next_key (m_input_handler P) = Some call_on_buffer_reload_key"
      "handled_keys (m_input_handler P) = []" "m_pending_keys P = []"
      "ui_info_hide \<notin> set (calls (m_ui P))"
    by (simp_all add: P_def prompting_simps demo_client_facts)
      (simp_all add: demo_defs get_face_def)
  define c where "c = (client demo_unreadable 0)\<lparr>m_ui := (m_ui P)\<lparr>input := []\<rparr>\<rparr>"
  have g: "get_next_key Normal (client demo_unreadable 0) = (Some (plain CHR ''y''), c)"
    by (simp add: get_next_key_contract before P c_def)
  define w0 where "w0 = set_client 0 c demo_unreadable"
  define w4 where "w4 = set_client 0
      (c\<lparr>m_input_handler := (m_input_handler c)
           \<lparr>handled_keys := handled_keys (m_input_handler c) @ [plain CHR ''y''],
            next_key := None\<rparr>\<rparr>) w0"
  have c: "m_input_handler c = m_input_handler P" "buffer (m_window c) = 0"
      "m_buffer_reload_dialog_opened c" "calls (m_ui c) = calls (m_ui P)"
    by (simp_all add: c_def before P context_buffer_def)
  have fy: "forwarded (plain CHR ''y'')" "confirm_key (plain CHR ''y'')"
    by (simp_all add: forwarded_demo confirm_key_def)
  have "dispatch_key (plain CHR ''y'') 0 w0 = handle_key (plain CHR ''y'') 0 w0"
    using fy(1) by (simp add: dispatch_key_def forwarded_def Let_def)
  also have "\<dots> = on_buffer_reload_key (plain CHR ''y'') 0 w4"
    unfolding w4_def
    by (rule handle_key_intercepted [of w0 0 "plain CHR ''y''", unfolded w0_def client_set_client,
          simplified, folded w0_def]) (simp add: c P)
  also have "\<dots> = (Some (runtime_error ''cannot open file''),
      w4\<lparr>buffers := (buffers w4)(0 := (buffers w4 0)\<lparr>reloads := Suc (reloads (buffers w4 0))\<rparr>)\<rparr>)"
    using on_buffer_reload_key_confirm_fails [of "plain CHR ''y''" w4 0 "''cannot open file''"] fy(2)
    by (simp add: Let_def w4_def w0_def set_client_def before c context_buffer_def)
  finally have dk: "dispatch_key (plain CHR ''y'') 0 (set_client 0 c demo_unreadable) =
      (Some (runtime_error ''cannot open file''),
       w4\<lparr>buffers := (buffers w4)(0 := (buffers w4 0)\<lparr>reloads := Suc (reloads (buffers w4 0))\<rparr>)\<rparr>)"
    unfolding w0_def .
  note d = drain_keys_raise [OF g dk]
  have after: "client w4 0 = c\<lparr>m_input_handler := (m_input_handler c)
           \<lparr>handled_keys := handled_keys (m_input_handler c) @ [plain CHR ''y''],
            next_key := None\<rparr>\<rparr>" "client w4 1 = P"
    by (simp_all add: w4_def w0_def set_client_def before before(2) [unfolded One_nat_def])
  have "fst (handle_available_input Normal 0 demo_unreadable) = None"
    by (simp add: handle_available_input_def d catch_runtime_error_def catch_client_removed_def
          Let_def)
  moreover have "m_pending_status_line (client (snd (handle_available_input Normal 0 demo_unreadable)) 0)
        = [atom ''cannot open file'' (RegisteredFace ''Error'')]"
    by (simp add: handle_available_input_def d catch_runtime_error_def catch_client_removed_def
          Let_def set_client_def print_status_def line_of_def get_face_def)
  moreover have "handled_keys (m_input_handler
        (client (snd (handle_available_input Normal 0 demo_unreadable)) 0)) = [plain CHR ''y'']"
      "m_buffer_reload_dialog_opened (client (snd (handle_available_input Normal 0 demo_unreadable)) 0)"
      "m_buffer_reload_dialog_opened (client (snd (handle_available_input Normal 0 demo_unreadable)) 1)"
      "next_key (m_input_handler
        (client (snd (handle_available_input Normal 0 demo_unreadable)) 0)) = None"
      "ui_info_hide \<notin> set (calls (m_ui
        (client (snd (handle_available_input Normal 0 demo_unreadable)) 0)))"
    by (simp_all add: handle_available_input_def catch_frame d after
          after(2) [unfolded One_nat_def] c P)
  ultimately show ?thesis
    by (simp add: before before(2) [unfolded One_nat_def] P context_buffer_def)
qed

end
